theory Spec2Isabelle
  imports Complex_Main
begin

section \<open>Python values and library functions\<close>

text \<open>
  The validator works on what \<^verbatim>\<open>json.loads\<close> returns: \<^verbatim>\<open>None\<close>, booleans, integers,
  strings, lists and dictionaries with string keys. A dictionary is an association list
  in insertion order; a key is looked up at its first entry. JSON numbers with a fraction
  or an exponent become binary floating-point values in Python and are not part of this
  development: the records treated here carry integer numbers only.
\<close>

datatype pyval =
    PNone
  | PBool bool
  | PInt int
  | PStr string
  | PList "pyval list"
  | PDict "(string \<times> pyval) list"

text \<open>
  The exceptions that can leave the library. \<^verbatim>\<open>ValidatorException\<close> is the only class
  the library declares (line 12); the others are raised by Python itself, by
  \<^verbatim>\<open>decimal\<close>, by \<^verbatim>\<open>json\<close> and by \<^verbatim>\<open>configparser\<close> (\<open>InterpolationError\<close> stands
  for its subclasses too).
\<close>

datatype pyerror =
    is_ValidatorException: ValidatorException string
  | KeyError
  | TypeError
  | ValueError
  | OverflowError
  | InvalidOperation
  | JSONDecodeError
  | InterpolationError

text \<open>
  A \<^verbatim>\<open>decimal.Decimal\<close>: a finite number is an integer coefficient and a power of ten,
  of any size; the special values are the two infinities and not-a-number.
\<close>

datatype decimal =
    DFin int int
  | DInf bool
  | DNaN

datatype parse_outcome = Parsed | ParseError string

text \<open>
  The library functions the source calls and does not define are parameters:
  \<^item> \<open>json_loads\<close> is \<^verbatim>\<open>json.loads\<close>, \<open>None\<close> when it raises;
  \<^item> \<open>decimal_of_str\<close> is \<^verbatim>\<open>Decimal\<close> on text, \<open>None\<close> when the text is not a
    decimal numeral;
  \<^item> \<open>decimal_of_seq\<close> is \<^verbatim>\<open>Decimal\<close> on a list;
  \<^item> \<open>int_of_str\<close> is \<^verbatim>\<open>int\<close> on text, \<open>None\<close> when it raises;
  \<^item> \<open>dateutil_parse\<close> is \<^verbatim>\<open>dateutil.parser.parse\<close>, with the text of the exception
    when it raises one;
  \<^item> \<open>repr\<close> is \<^verbatim>\<open>str\<close> on a list or a dictionary.
\<close>

record pylib =
  json_loads :: "string \<Rightarrow> pyval option"
  decimal_of_str :: "string \<Rightarrow> decimal option"
  decimal_of_seq :: "pyval list \<Rightarrow> pyerror + decimal"
  int_of_str :: "string \<Rightarrow> int option"
  dateutil_parse :: "pyval \<Rightarrow> parse_outcome"
  repr :: "pyval \<Rightarrow> string"

subsection \<open>Text\<close>

definition quoted :: "string \<Rightarrow> string" where
  "quoted s = CHR 0x27 # s @ [CHR 0x27]"

fun str_nat :: "nat \<Rightarrow> string" where
  "str_nat n =
     (if n < 10 then [''0123456789'' ! n]
      else str_nat (n div 10) @ [''0123456789'' ! (n mod 10)])"

declare str_nat.simps [simp del]

definition str_int :: "int \<Rightarrow> string" where
  "str_int i = (if i < 0 then CHR ''-'' # str_nat (nat (- i)) else str_nat (nat i))"

text \<open>\<^verbatim>\<open>sep.join(xs)\<close>\<close>

fun join :: "string \<Rightarrow> string list \<Rightarrow> string" where
  "join sep [] = []"
| "join sep [x] = x"
| "join sep (x # y # ys) = x @ sep @ join sep (y # ys)"

text \<open>\<^verbatim>\<open>s.split(c)\<close> for a one-character separator: never the empty list.\<close>

fun split :: "char \<Rightarrow> string \<Rightarrow> string list" where
  "split c [] = [[]]"
| "split c (x # xs) =
     (if x = c then [] # split c xs
      else (case split c xs of w # ws \<Rightarrow> (x # w) # ws | [] \<Rightarrow> [[x]]))"

fun startswith :: "string \<Rightarrow> string \<Rightarrow> bool" where
  "startswith s [] = True"
| "startswith [] (p # ps) = False"
| "startswith (c # cs) (p # ps) = (c = p \<and> startswith cs ps)"

text \<open>\<^verbatim>\<open>sub in s\<close> on two strings\<close>

fun str_contains :: "string \<Rightarrow> string \<Rightarrow> bool" where
  "str_contains [] sub = (sub = [])"
| "str_contains (c # cs) sub = (startswith (c # cs) sub \<or> str_contains cs sub)"

subsection \<open>Operations on values\<close>

text \<open>\<^verbatim>\<open>str(v)\<close>, which is also what \<^verbatim>\<open>'%s' % v\<close> inserts\<close>

definition py_str :: "pylib \<Rightarrow> pyval \<Rightarrow> string" where
  "py_str lib v =
     (case v of
        PNone \<Rightarrow> ''None''
      | PBool b \<Rightarrow> (if b then ''True'' else ''False'')
      | PInt i \<Rightarrow> str_int i
      | PStr s \<Rightarrow> s
      | PList xs \<Rightarrow> repr lib v
      | PDict kvs \<Rightarrow> repr lib v)"

text \<open>\<^verbatim>\<open>d.get(key)\<close> on a dictionary: \<^verbatim>\<open>None\<close> for an absent key\<close>

definition dict_get :: "(string \<times> pyval) list \<Rightarrow> string \<Rightarrow> pyval" where
  "dict_get kvs key = (case map_of kvs key of None \<Rightarrow> PNone | Some v \<Rightarrow> v)"

text \<open>\<^verbatim>\<open>v[key]\<close> with a string key\<close>

definition subscript :: "pyval \<Rightarrow> string \<Rightarrow> pyerror + pyval" where
  "subscript v key =
     (case v of
        PDict kvs \<Rightarrow> (case map_of kvs key of None \<Rightarrow> Inl KeyError | Some x \<Rightarrow> Inr x)
      | _ \<Rightarrow> Inl TypeError)"

text \<open>\<^verbatim>\<open>'%d' % v\<close>: a boolean is the integer 0 or 1, anything else that is not a number raises\<close>

definition fmt_d :: "pyval \<Rightarrow> pyerror + string" where
  "fmt_d v =
     (case v of
        PInt i \<Rightarrow> Inr (str_int i)
      | PBool b \<Rightarrow> Inr (str_int (if b then 1 else 0))
      | _ \<Rightarrow> Inl TypeError)"

text \<open>\<^verbatim>\<open>v + i\<close> for an integer \<^verbatim>\<open>i\<close>\<close>

definition add_int :: "pyval \<Rightarrow> int \<Rightarrow> pyerror + int" where
  "add_int v i =
     (case v of
        PInt p \<Rightarrow> Inr (p + i)
      | PBool b \<Rightarrow> Inr ((if b then 1 else 0) + i)
      | _ \<Rightarrow> Inl TypeError)"

text \<open>\<^verbatim>\<open>v != i\<close> for an integer \<^verbatim>\<open>i\<close>\<close>

definition ne_int :: "pyval \<Rightarrow> int \<Rightarrow> bool" where
  "ne_int v i =
     (case v of
        PInt n \<Rightarrow> n \<noteq> i
      | PBool b \<Rightarrow> (if b then 1 else 0) \<noteq> i
      | _ \<Rightarrow> True)"

text \<open>
  \<^verbatim>\<open>s not in c\<close> for a string \<^verbatim>\<open>s\<close>: membership in a list, key membership in a
  dictionary, substring test in a string; any other container raises.
\<close>

definition str_not_in :: "string \<Rightarrow> pyval \<Rightarrow> pyerror + bool" where
  "str_not_in s c =
     (case c of
        PList xs \<Rightarrow> Inr (PStr s \<notin> set xs)
      | PDict kvs \<Rightarrow> Inr (s \<notin> set (map fst kvs))
      | PStr t \<Rightarrow> Inr (\<not> str_contains t s)
      | _ \<Rightarrow> Inl TypeError)"

text \<open>\<^verbatim>\<open>map(str, c)\<close> as a list, for the containers that passed the membership test\<close>

definition map_str :: "pylib \<Rightarrow> pyval \<Rightarrow> string list" where
  "map_str lib c =
     (case c of
        PList xs \<Rightarrow> map (py_str lib) xs
      | PDict kvs \<Rightarrow> map fst kvs
      | PStr t \<Rightarrow> map (\<lambda>ch. [ch]) t
      | _ \<Rightarrow> [])"

subsection \<open>Decimal\<close>

text \<open>\<^verbatim>\<open>Decimal(v)\<close>: exact on integers and booleans\<close>

definition Decimal :: "pylib \<Rightarrow> pyval \<Rightarrow> pyerror + decimal" where
  "Decimal lib v =
     (case v of
        PInt i \<Rightarrow> Inr (DFin i 0)
      | PBool b \<Rightarrow> Inr (DFin (if b then 1 else 0) 0)
      | PStr s \<Rightarrow> (case decimal_of_str lib s of None \<Rightarrow> Inl InvalidOperation | Some d \<Rightarrow> Inr d)
      | PList xs \<Rightarrow> decimal_of_seq lib xs
      | _ \<Rightarrow> Inl TypeError)"

text \<open>
  \<^verbatim>\<open>a < b\<close> on decimals. Two finite numbers are brought to the smaller exponent and
  their integer coefficients compared, with no rounding; a comparison with not-a-number
  raises under the default context.
\<close>

definition fin_less :: "int \<Rightarrow> int \<Rightarrow> int \<Rightarrow> int \<Rightarrow> bool" where
  "fin_less c1 e1 c2 e2 =
     (c1 * 10 ^ nat (e1 - min e1 e2) < c2 * 10 ^ nat (e2 - min e1 e2))"

fun decimal_less :: "decimal \<Rightarrow> decimal \<Rightarrow> pyerror + bool" where
  "decimal_less DNaN b = Inl InvalidOperation"
| "decimal_less a DNaN = Inl InvalidOperation"
| "decimal_less (DFin c1 e1) (DFin c2 e2) = Inr (fin_less c1 e1 c2 e2)"
| "decimal_less (DFin c e) (DInf neg) = Inr (\<not> neg)"
| "decimal_less (DInf neg) (DFin c e) = Inr neg"
| "decimal_less (DInf n1) (DInf n2) = Inr (n1 \<and> \<not> n2)"

text \<open>\<^verbatim>\<open>'%d' % d\<close> on a decimal: truncation towards zero; an infinity raises\<close>

definition fmt_d_decimal :: "decimal \<Rightarrow> pyerror + string" where
  "fmt_d_decimal d =
     (case d of
        DFin c e \<Rightarrow>
          Inr (str_int
            (if 0 \<le> e then c * 10 ^ nat e
             else if c < 0 then - ((- c) div 10 ^ nat (- e))
             else c div 10 ^ nat (- e)))
      | DInf neg \<Rightarrow> Inl OverflowError
      | DNaN \<Rightarrow> Inl ValueError)"

section \<open>Field\<close>

text \<open>
  The attributes \<^verbatim>\<open>__init__\<close> and \<^verbatim>\<open>validate\<close> set on a \<^verbatim>\<open>Field\<close>. An optional
  attribute is \<open>None\<close> while the object does not have it, so \<^verbatim>\<open>hasattr(self, a)\<close> is
  \<open>a self \<noteq> None\<close>.
\<close>

record Field =
  path :: string
  type :: string
  upper_limit :: "decimal option"
  lower_limit :: "decimal option"
  "values" :: "pyval option"
  increment :: "int option"
  equals_value :: "string option"
  previous_value :: "pyval option"

record ValidationResult =
  valid :: bool
  error :: string

definition TYPE_TIMESTAMP :: string where
  "TYPE_TIMESTAMP = ''timestamp''"

text \<open>
  One section of the configuration, as \<^verbatim>\<open>configparser\<close> hands it over: its name and
  what \<^verbatim>\<open>field.get(key)\<close> does for each key. The call returns the text of the option
  after interpolation, or \<^verbatim>\<open>None\<close> when the section has no such option, or it raises
  the exception of the interpolation (a value such as \<^verbatim>\<open>10%\<close> cannot be interpolated).
\<close>

record SectionProxy =
  section_name :: string
  section_get :: "string \<Rightarrow> pyerror + string option"

definition str_section :: "SectionProxy \<Rightarrow> string" where
  "str_section field = ''<Section: '' @ section_name field @ ''>''"

subsection \<open>The messages\<close>

text \<open>The format strings of lines 25, 28, 55, 60, 62, 64, 66, 68, 70, 76 and 83, filled in.\<close>

definition missing_property_message :: "string \<Rightarrow> SectionProxy \<Rightarrow> string" where
  "missing_property_message key field =
     ''Missing required configuration property '' @ quoted key @ '' for field ''
       @ quoted (str_section field)"

definition traversal_message :: "pylib \<Rightarrow> string \<Rightarrow> pyval \<Rightarrow> string" where
  "traversal_message lib p data =
     ''Could not find field with path '' @ quoted p @ '' in message: ''
       @ quoted (py_str lib data)"

definition missing_message :: "string \<Rightarrow> string" where
  "missing_message p = ''Field '' @ quoted p @ '' missing''"

definition empty_message :: "string \<Rightarrow> string" where
  "empty_message p = ''Field '' @ quoted p @ '' empty''"

definition upper_limit_message :: "string \<Rightarrow> string \<Rightarrow> string \<Rightarrow> string" where
  "upper_limit_message p shown limit =
     ''Field '' @ quoted p @ '' value '' @ quoted shown @ '' is greater than upper limit ''
       @ quoted limit"

definition lower_limit_message :: "string \<Rightarrow> string \<Rightarrow> string \<Rightarrow> string" where
  "lower_limit_message p shown limit =
     ''Field '' @ quoted p @ '' value '' @ quoted shown @ '' is less than lower limit ''
       @ quoted limit"

definition values_message :: "string \<Rightarrow> string \<Rightarrow> string list \<Rightarrow> string" where
  "values_message p shown known =
     ''Field '' @ quoted p @ '' value '' @ quoted shown @ '' not in list of known values: [''
       @ join '', '' known @ '']''"

definition equals_value_message :: "string \<Rightarrow> string \<Rightarrow> string \<Rightarrow> string" where
  "equals_value_message p shown expected =
     ''Field '' @ quoted p @ '' value '' @ quoted shown @ '' did not equal expected value ''
       @ quoted expected"

definition increment_message :: "string \<Rightarrow> string \<Rightarrow> string \<Rightarrow> string \<Rightarrow> string" where
  "increment_message p shown expected step =
     ''Field '' @ quoted p @ '' successor value '' @ quoted shown
       @ '' did not match expected value '' @ quoted expected @ '', increment '' @ quoted step"

definition timestamp_message :: "string \<Rightarrow> string \<Rightarrow> string" where
  "timestamp_message p e =
     ''Field '' @ quoted p @ '' value could not be parsed as a timestamp, error: '' @ e"

subsection \<open>Construction\<close>

text \<open>
  An optional setting, from what \<^verbatim>\<open>field.get\<close> did: the exception it raised; nothing
  when the option is absent; the converted text when it is present; the exception of the
  conversion when that fails.
\<close>

definition optional ::
  "(string \<Rightarrow> 'a option) \<Rightarrow> pyerror \<Rightarrow> pyerror + string option
     \<Rightarrow> pyerror + 'a option" where
  "optional convert err setting =
     (case setting of
        Inl e \<Rightarrow> Inl e
      | Inr None \<Rightarrow> Inr None
      | Inr (Some text) \<Rightarrow>
          (case convert text of None \<Rightarrow> Inl err | Some x \<Rightarrow> Inr (Some x)))"

text \<open>\<^verbatim>\<open>Field.__init__\<close> (lines 21 to 45)\<close>

definition Field_init :: "pylib \<Rightarrow> SectionProxy \<Rightarrow> pyerror + Field" where
  "Field_init lib field =
     (case section_get field ''Path'' of
        Inl e \<Rightarrow> Inl e
      | Inr None \<Rightarrow> Inl (ValidatorException (missing_property_message ''Path'' field))
      | Inr (Some p) \<Rightarrow>
     (case section_get field ''Type'' of
        Inl e \<Rightarrow> Inl e
      | Inr None \<Rightarrow> Inl (ValidatorException (missing_property_message ''Type'' field))
      | Inr (Some t) \<Rightarrow>
     (case optional (decimal_of_str lib) InvalidOperation (section_get field ''UpperLimit'') of
        Inl e \<Rightarrow> Inl e
      | Inr ul \<Rightarrow>
     (case optional (decimal_of_str lib) InvalidOperation (section_get field ''LowerLimit'') of
        Inl e \<Rightarrow> Inl e
      | Inr ll \<Rightarrow>
     (case optional (json_loads lib) JSONDecodeError (section_get field ''Values'') of
        Inl e \<Rightarrow> Inl e
      | Inr vs \<Rightarrow>
     (case optional (int_of_str lib) ValueError (section_get field ''Increment'') of
        Inl e \<Rightarrow> Inl e
      | Inr inc \<Rightarrow>
     (case section_get field ''EqualsValue'' of
        Inl e \<Rightarrow> Inl e
      | Inr ev \<Rightarrow>
        Inr \<lparr>path = p, type = t, upper_limit = ul, lower_limit = ll, values = vs,
             increment = inc, equals_value = ev, previous_value = None\<rparr>)))))))"

subsection \<open>Value extraction\<close>

text \<open>
  The loop of \<^verbatim>\<open>_get_field_value\<close> (lines 50 to 53): \<^verbatim>\<open>value = value.get(key)\<close> for each
  key. Only a dictionary has \<^verbatim>\<open>get\<close>; \<open>None\<close> is the \<^verbatim>\<open>AttributeError\<close> of any
  other value.
\<close>

fun descend :: "string list \<Rightarrow> pyval \<Rightarrow> pyval option" where
  "descend [] v = Some v"
| "descend (key # keys) v =
     (case v of PDict kvs \<Rightarrow> descend keys (dict_get kvs key) | _ \<Rightarrow> None)"

text \<open>\<^verbatim>\<open>Field._get_field_value\<close> (lines 47 to 55)\<close>

definition get_field_value :: "pylib \<Rightarrow> Field \<Rightarrow> pyval \<Rightarrow> pyerror + pyval" where
  "get_field_value lib self data =
     (case descend (split CHR ''.'' (path self)) data of
        Some v \<Rightarrow> Inr v
      | None \<Rightarrow> Inl (ValidatorException (traversal_message lib (path self) data)))"

subsection \<open>validate\<close>

text \<open>
  \<^verbatim>\<open>Field.validate\<close> (lines 57 to 84) is a chain of \<^verbatim>\<open>if ...: return ...\<close>. It is
  written from the bottom up: each definition is one test of the chain, followed by the
  rest of the method. All but the last test return the outcome together with the field
  as the call leaves it; an exception leaves the method before any assignment.
\<close>

definition invalid :: "string \<Rightarrow> ValidationResult" where
  "invalid msg = \<lparr>valid = False, error = msg\<rparr>"

definition passed :: ValidationResult where
  "passed = \<lparr>valid = True, error = []\<rparr>"

text \<open>Lines 79 to 84\<close>

definition validate_timestamp :: "pylib \<Rightarrow> Field \<Rightarrow> pyval \<Rightarrow> pyerror + ValidationResult" where
  "validate_timestamp lib self field_value =
     (if type self = TYPE_TIMESTAMP then
        (case dateutil_parse lib field_value of
           ParseError e \<Rightarrow> Inr (invalid (timestamp_message (path self) e))
         | Parsed \<Rightarrow> Inr passed)
      else Inr passed)"

text \<open>Lines 71 to 78, then the rest\<close>

definition validate_increment ::
  "pylib \<Rightarrow> Field \<Rightarrow> pyval \<Rightarrow> (pyerror + ValidationResult) \<times> Field" where
  "validate_increment lib self field_value =
     (case increment self of
        None \<Rightarrow> (validate_timestamp lib self field_value, self)
      | Some inc \<Rightarrow>
          (case previous_value self of
             None \<Rightarrow>
               (validate_timestamp lib (self\<lparr>previous_value := Some field_value\<rparr>) field_value,
                self\<lparr>previous_value := Some field_value\<rparr>)
           | Some prev \<Rightarrow>
               (case add_int prev inc of
                  Inl e \<Rightarrow> (Inl e, self)
                | Inr expected \<Rightarrow>
                    if ne_int field_value expected then
                      (case fmt_d field_value of
                         Inl e \<Rightarrow> (Inl e, self)
                       | Inr shown \<Rightarrow>
                           (Inr (invalid (increment_message (path self) shown
                                   (str_int expected) (str_int inc))),
                            self\<lparr>previous_value := Some field_value\<rparr>))
                    else (validate_timestamp lib self field_value, self))))"

text \<open>Lines 69 and 70, then the rest\<close>

definition validate_equals_value ::
  "pylib \<Rightarrow> Field \<Rightarrow> pyval \<Rightarrow> (pyerror + ValidationResult) \<times> Field" where
  "validate_equals_value lib self field_value =
     (case equals_value self of
        None \<Rightarrow> validate_increment lib self field_value
      | Some ev \<Rightarrow>
          if py_str lib field_value \<noteq> ev then
            (Inr (invalid (equals_value_message (path self) (py_str lib field_value) ev)), self)
          else validate_increment lib self field_value)"

text \<open>Lines 67 and 68, then the rest\<close>

definition validate_values ::
  "pylib \<Rightarrow> Field \<Rightarrow> pyval \<Rightarrow> (pyerror + ValidationResult) \<times> Field" where
  "validate_values lib self field_value =
     (case values self of
        None \<Rightarrow> validate_equals_value lib self field_value
      | Some vs \<Rightarrow>
          (case str_not_in (py_str lib field_value) vs of
             Inl e \<Rightarrow> (Inl e, self)
           | Inr True \<Rightarrow>
               (Inr (invalid (values_message (path self) (py_str lib field_value)
                       (map_str lib vs))), self)
           | Inr False \<Rightarrow> validate_equals_value lib self field_value))"

text \<open>Lines 65 and 66, then the rest\<close>

definition validate_lower_limit ::
  "pylib \<Rightarrow> Field \<Rightarrow> pyval \<Rightarrow> (pyerror + ValidationResult) \<times> Field" where
  "validate_lower_limit lib self field_value =
     (case lower_limit self of
        None \<Rightarrow> validate_values lib self field_value
      | Some ll \<Rightarrow>
          (case Decimal lib field_value of
             Inl e \<Rightarrow> (Inl e, self)
           | Inr d \<Rightarrow>
               (case decimal_less d ll of
                  Inl e \<Rightarrow> (Inl e, self)
                | Inr True \<Rightarrow>
                    (case fmt_d_decimal d of
                       Inl e \<Rightarrow> (Inl e, self)
                     | Inr shown \<Rightarrow>
                         (case fmt_d_decimal ll of
                            Inl e \<Rightarrow> (Inl e, self)
                          | Inr limit \<Rightarrow>
                              (Inr (invalid (lower_limit_message (path self) shown limit)),
                               self)))
                | Inr False \<Rightarrow> validate_values lib self field_value)))"

text \<open>Lines 63 and 64, then the rest\<close>

definition validate_upper_limit ::
  "pylib \<Rightarrow> Field \<Rightarrow> pyval \<Rightarrow> (pyerror + ValidationResult) \<times> Field" where
  "validate_upper_limit lib self field_value =
     (case upper_limit self of
        None \<Rightarrow> validate_lower_limit lib self field_value
      | Some ul \<Rightarrow>
          (case Decimal lib field_value of
             Inl e \<Rightarrow> (Inl e, self)
           | Inr d \<Rightarrow>
               (case decimal_less ul d of
                  Inl e \<Rightarrow> (Inl e, self)
                | Inr True \<Rightarrow>
                    (case fmt_d_decimal d of
                       Inl e \<Rightarrow> (Inl e, self)
                     | Inr shown \<Rightarrow>
                         (case fmt_d_decimal ul of
                            Inl e \<Rightarrow> (Inl e, self)
                          | Inr limit \<Rightarrow>
                              (Inr (invalid (upper_limit_message (path self) shown limit)),
                               self)))
                | Inr False \<Rightarrow> validate_lower_limit lib self field_value)))"

text \<open>\<^verbatim>\<open>Field.validate\<close>: lines 57 to 62, then the rest\<close>

definition validate :: "pylib \<Rightarrow> Field \<Rightarrow> pyval \<Rightarrow> (pyerror + ValidationResult) \<times> Field" where
  "validate lib self data =
     (case get_field_value lib self data of
        Inl e \<Rightarrow> (Inl e, self)
      | Inr field_value \<Rightarrow>
          if field_value = PNone then (Inr (invalid (missing_message (path self))), self)
          else if field_value = PStr [] then (Inr (invalid (empty_message (path self))), self)
          else validate_upper_limit lib self field_value)"

section \<open>TestCase\<close>

record TestCase =
  field_list :: "Field list"

text \<open>
  The loop of \<^verbatim>\<open>TestCase.__init__\<close> (lines 91 to 95) over the sections of the
  configuration, in the order \<^verbatim>\<open>config.sections()\<close> lists them.
\<close>

fun load_fields :: "pylib \<Rightarrow> SectionProxy list \<Rightarrow> pyerror + Field list" where
  "load_fields lib [] = Inr []"
| "load_fields lib (s # ss) =
     (if section_name s = ''_settings'' then load_fields lib ss
      else (case Field_init lib s of
              Inl e \<Rightarrow> Inl e
            | Inr f \<Rightarrow> (case load_fields lib ss of Inl e \<Rightarrow> Inl e | Inr fs \<Rightarrow> Inr (f # fs))))"

definition TestCase_init :: "pylib \<Rightarrow> SectionProxy list \<Rightarrow> pyerror + TestCase" where
  "TestCase_init lib config =
     (case load_fields lib config of Inl e \<Rightarrow> Inl e | Inr fs \<Rightarrow> Inr \<lparr>field_list = fs\<rparr>)"

text \<open>One entry of the list \<^verbatim>\<open>_validate\<close> returns, and one entry of \<^verbatim>\<open>Results\<close>\<close>

record Validation =
  Field :: string
  Valid :: bool
  Details :: string

record RecordReport =
  RecordID :: string
  Validations :: "Validation list"

record BatchReport =
  Results :: "RecordReport list"

text \<open>
  The loop of \<^verbatim>\<open>TestCase._validate\<close> (lines 99 to 105) over the fields: the
  validations, or the exception that ended the loop, with the fields as the loop leaves
  them.
\<close>

fun validate_fields ::
  "pylib \<Rightarrow> Field list \<Rightarrow> pyval \<Rightarrow> (pyerror + Validation list) \<times> Field list" where
  "validate_fields lib [] data = (Inr [], [])"
| "validate_fields lib (field # flds) data =
     (case validate lib field data of
        (Inl e, field') \<Rightarrow> (Inl e, field' # flds)
      | (Inr result, field') \<Rightarrow>
          (case validate_fields lib flds data of
             (Inl e, flds') \<Rightarrow> (Inl e, field' # flds')
           | (Inr validations, flds') \<Rightarrow>
               (Inr (\<lparr>Field = path field, Valid = valid result, Details = error result\<rparr>
                       # validations),
                field' # flds')))"

text \<open>\<^verbatim>\<open>TestCase._validate\<close> (lines 97 to 106)\<close>

definition TestCase_validate ::
  "pylib \<Rightarrow> TestCase \<Rightarrow> pyval \<Rightarrow> (pyerror + Validation list) \<times> TestCase" where
  "TestCase_validate lib self data =
     (case validate_fields lib (field_list self) data of
        (r, flds') \<Rightarrow> (r, self\<lparr>field_list := flds'\<rparr>))"

text \<open>Line 112: \<^verbatim>\<open>str(current_msg['metadata']['serialId']['recordId'])\<close>\<close>

definition record_id :: "pylib \<Rightarrow> pyval \<Rightarrow> pyerror + string" where
  "record_id lib current_msg =
     (case subscript current_msg ''metadata'' of
        Inl e \<Rightarrow> Inl e
      | Inr metadata \<Rightarrow>
          (case subscript metadata ''serialId'' of
             Inl e \<Rightarrow> Inl e
           | Inr serial_id \<Rightarrow>
               (case subscript serial_id ''recordId'' of
                  Inl e \<Rightarrow> Inl e
                | Inr rid \<Rightarrow> Inr (py_str lib rid))))"

text \<open>
  The loop of \<^verbatim>\<open>TestCase.validate_queue\<close> (lines 110 to 117). The queue is the list of
  serialized records still to be taken, first in first out; the result carries the test
  case and the queue as the loop leaves them.
\<close>

fun drain ::
  "pylib \<Rightarrow> TestCase \<Rightarrow> string list \<Rightarrow> (pyerror + RecordReport list) \<times> TestCase \<times> string list" where
  "drain lib self [] = (Inr [], self, [])"
| "drain lib self (msg # msg_queue) =
     (case json_loads lib msg of
        None \<Rightarrow> (Inl JSONDecodeError, self, msg_queue)
      | Some current_msg \<Rightarrow>
          (case record_id lib current_msg of
             Inl e \<Rightarrow> (Inl e, self, msg_queue)
           | Inr rid \<Rightarrow>
               (case TestCase_validate lib self current_msg of
                  (Inl e, self') \<Rightarrow> (Inl e, self', msg_queue)
                | (Inr field_validations, self') \<Rightarrow>
                    (case drain lib self' msg_queue of
                       (Inl e, rest) \<Rightarrow> (Inl e, rest)
                     | (Inr results, rest) \<Rightarrow>
                         (Inr (\<lparr>RecordID = rid, Validations = field_validations\<rparr> # results),
                          rest)))))"

text \<open>\<^verbatim>\<open>TestCase.validate_queue\<close> (lines 108 to 118)\<close>

definition validate_queue ::
  "pylib \<Rightarrow> TestCase \<Rightarrow> string list \<Rightarrow> (pyerror + BatchReport) \<times> TestCase \<times> string list" where
  "validate_queue lib self msg_queue =
     (case drain lib self msg_queue of
        (Inl e, rest) \<Rightarrow> (Inl e, rest)
      | (Inr results, rest) \<Rightarrow> (Inr \<lparr>Results = results\<rparr>, rest))"

section \<open>The order of the checks\<close>














section \<open>Example data\<close>

text \<open>
  A field rule with \<^verbatim>\<open>Increment = 1\<close> on the path \<^verbatim>\<open>n\<close>, as \<^verbatim>\<open>__init__\<close> leaves it, the
  section it is built from, and a record whose \<^verbatim>\<open>n\<close> is a given integer.
\<close>

definition counter :: Field where
  "counter =
     \<lparr>path = ''n'', type = ''decimal'', upper_limit = None, lower_limit = None,
      values = None, increment = Some 1, equals_value = None, previous_value = None\<rparr>"

text \<open>A section whose options are plain texts: reading one never raises.\<close>

definition plain_section :: "string \<Rightarrow> (string \<rightharpoonup> string) \<Rightarrow> SectionProxy" where
  "plain_section name opts = \<lparr>section_name = name, section_get = (\<lambda>key. Inr (opts key))\<rparr>"

definition counter_section :: SectionProxy where
  "counter_section =
     plain_section ''counter''
       [''Path'' \<mapsto> ''n'', ''Type'' \<mapsto> ''decimal'', ''Increment'' \<mapsto> ''1'']"

definition reading :: "int \<Rightarrow> pyval" where
  "reading i = PDict [(''n'', PInt i)]"

text \<open>
  A record of the shape the batch validator expects, with a record identifier and a
  speed, and the three serialized records of the examples.
\<close>

definition vehicle :: "int \<Rightarrow> pyval \<Rightarrow> pyval" where
  "vehicle rid speed =
     PDict [(''metadata'', PDict [(''serialId'', PDict [(''recordId'', PInt rid)])]),
            (''speed'', speed)]"

definition msg_slow :: string where
  \<open>msg_slow = ''{"metadata": {"serialId": {"recordId": 1}}, "speed": 50}''\<close>

definition msg_fast :: string where
  \<open>msg_fast = ''{"metadata": {"serialId": {"recordId": 2}}, "speed": 101}''\<close>

definition msg_text :: string where
  \<open>msg_text = ''{"metadata": {"serialId": {"recordId": 3}}, "speed": "abc"}''\<close>

definition repr_slow :: string where
  \<open>repr_slow = ''{'metadata': {'serialId': {'recordId': 1}}, 'speed': 50}''\<close>

text \<open>
  The library functions on the inputs of the examples, and only there: each entry is
  what Python returns for that input. Every other input is answered as a failure (an
  empty text for \<open>repr\<close>), which the examples never rely on.
\<close>

definition example_lib :: pylib where
  "example_lib =
     \<lparr>json_loads = map_of
        [(msg_slow, vehicle 1 (PInt 50)),
         (msg_fast, vehicle 2 (PInt 101)),
         (msg_text, vehicle 3 (PStr ''abc''))],
      decimal_of_str = map_of [(''100'', DFin 100 0), (''100.5'', DFin 1005 (- 1))],
      decimal_of_seq = (\<lambda>xs. Inl ValueError),
      int_of_str = map_of [(''1'', 1)],
      dateutil_parse = (\<lambda>v. ParseError []),
      repr = (\<lambda>v. if v = vehicle 1 (PInt 50) then repr_slow else [])\<rparr>"

text \<open>The rules of the examples, as \<^verbatim>\<open>__init__\<close> leaves them.\<close>

definition speed_ceiling :: Field where
  "speed_ceiling =
     \<lparr>path = ''speed'', type = ''decimal'', upper_limit = Some (DFin 100 0),
      lower_limit = None, values = None, increment = None, equals_value = None,
      previous_value = None\<rparr>"

definition speed_floor :: Field where
  "speed_floor =
     \<lparr>path = ''speed'', type = ''decimal'', upper_limit = None,
      lower_limit = Some (DFin 100 0), values = None, increment = None, equals_value = None,
      previous_value = None\<rparr>"

definition record_counter :: Field where
  "record_counter =
     \<lparr>path = ''metadata.serialId.recordId'', type = ''decimal'', upper_limit = None,
      lower_limit = None, values = None, increment = Some 1, equals_value = None,
      previous_value = None\<rparr>"

text \<open>
  The section \<^verbatim>\<open>[name]\<close> with \<^verbatim>\<open>Path = name\<close>, \<^verbatim>\<open>Type = decimal\<close> and a given text for
  \<^verbatim>\<open>UpperLimit\<close>, and a section in which reading \<^verbatim>\<open>UpperLimit\<close> raises.
\<close>

definition ceiling_section :: "string \<Rightarrow> string \<Rightarrow> SectionProxy" where
  "ceiling_section name limit =
     plain_section name
       [''Path'' \<mapsto> name, ''Type'' \<mapsto> ''decimal'', ''UpperLimit'' \<mapsto> limit]"

definition percent_section :: SectionProxy where
  "percent_section =
     \<lparr>section_name = ''speed'',
      section_get =
        (\<lambda>key. if key = ''UpperLimit'' then Inl InterpolationError
              else Inr ([''Path'' \<mapsto> ''speed'', ''Type'' \<mapsto> ''decimal''] key))\<rparr>"


text \<open>A rule with no constraint on a given path.\<close>

definition plain_rule :: "string \<Rightarrow> Field" where
  "plain_rule p =
     \<lparr>path = p, type = ''string'', upper_limit = None, lower_limit = None, values = None,
      increment = None, equals_value = None, previous_value = None\<rparr>"

text \<open>
  The test case of the examples, a record counter and a speed ceiling, and the report
  expected for the slow record followed by the fast one.
\<close>

definition example_case :: TestCase where
  "example_case = \<lparr>field_list = [record_counter, speed_ceiling]\<rparr>"

definition example_report :: BatchReport where
  "example_report =
     \<lparr>Results =
        [\<lparr>RecordID = ''1'',
          Validations =
            [\<lparr>Field = ''metadata.serialId.recordId'', Valid = True, Details = []\<rparr>,
             \<lparr>Field = ''speed'', Valid = True, Details = []\<rparr>]\<rparr>,
         \<lparr>RecordID = ''2'',
          Validations =
            [\<lparr>Field = ''metadata.serialId.recordId'', Valid = True, Details = []\<rparr>,
             \<lparr>Field = ''speed'', Valid = False,
              Details = upper_limit_message ''speed'' ''101'' ''100''\<rparr>]\<rparr>]\<rparr>"

section \<open>Basic facts\<close>

text \<open>Extraction and the timestamp test do not look at \<^verbatim>\<open>previous_value\<close>.\<close>

lemma validate_timestamp_previous_value:
  "validate_timestamp lib (self\<lparr>previous_value := pv\<rparr>) v = validate_timestamp lib self v"
  by (simp add: validate_timestamp_def split: parse_outcome.splits)

lemma get_field_value_previous_value:
  "get_field_value lib (self\<lparr>previous_value := pv\<rparr>) data = get_field_value lib self data"
  by (simp add: get_field_value_def split: option.splits)

lemma invalid_eq: "invalid a = invalid b \<longleftrightarrow> a = b"
  by (simp add: invalid_def)

lemma invalid_not_passed: "passed \<noteq> invalid a"
  by (simp add: invalid_def passed_def)

section \<open>Fields without sequence state\<close>

lemma validate_increment_none:
  "increment self = None \<Longrightarrow>
     validate_increment lib self v = (validate_timestamp lib self v, self)"
  by (simp add: validate_increment_def)

lemma stateless_equals_value:
  assumes "increment self = None"
  shows "snd (validate_equals_value lib self v) = self"
    and "fst (validate_equals_value lib (self\<lparr>previous_value := pv\<rparr>) v)
           = fst (validate_equals_value lib self v)"
  using assms
  by (simp_all add: validate_equals_value_def validate_increment_none
        validate_timestamp_previous_value split: option.splits)

lemma stateless_values:
  assumes "increment self = None"
  shows "snd (validate_values lib self v) = self"
    and "fst (validate_values lib (self\<lparr>previous_value := pv\<rparr>) v)
           = fst (validate_values lib self v)"
  using assms
  by (simp_all add: validate_values_def stateless_equals_value
        split: option.splits sum.splits bool.splits)

lemma stateless_lower_limit:
  assumes "increment self = None"
  shows "snd (validate_lower_limit lib self v) = self"
    and "fst (validate_lower_limit lib (self\<lparr>previous_value := pv\<rparr>) v)
           = fst (validate_lower_limit lib self v)"
  using assms
  by (simp_all add: validate_lower_limit_def stateless_values
        split: option.splits sum.splits bool.splits)

lemma stateless_upper_limit:
  assumes "increment self = None"
  shows "snd (validate_upper_limit lib self v) = self"
    and "fst (validate_upper_limit lib (self\<lparr>previous_value := pv\<rparr>) v)
           = fst (validate_upper_limit lib self v)"
  using assms
  by (simp_all add: validate_upper_limit_def stateless_lower_limit
        split: option.splits sum.splits bool.splits)

text \<open>
  Claim C8. A field rule with no increment configured is stateless: \<^verbatim>\<open>validate\<close> leaves
  the field as it found it, so a second call with the same record gives the same result
  (the same outcome, valid flag and detail), and the outcome does not depend on
  \<^verbatim>\<open>previous_value\<close>, the only attribute that ever changes.
\<close>

theorem validate_without_increment_stateless:
  assumes "increment self = None"
  shows "snd (validate lib self data) = self
     \<and> validate lib (snd (validate lib self data)) data = validate lib self data
     \<and> fst (validate lib (self\<lparr>previous_value := pv\<rparr>) data) = fst (validate lib self data)"
proof -
  have unchanged: "snd (validate lib self data) = self"
    using assms by (simp add: validate_def stateless_upper_limit split: sum.splits)
  have unread:
    "fst (validate lib (self\<lparr>previous_value := pv\<rparr>) data) = fst (validate lib self data)"
    using assms
    by (simp add: validate_def stateless_upper_limit get_field_value_previous_value
          split: sum.splits)
  from unchanged unread show ?thesis by simp
qed

lemma get_speed: "path self = ''speed'' \<Longrightarrow> get_field_value lib self (vehicle rid s) = Inr s"
  by (simp add: get_field_value_def vehicle_def dict_get_def)

lemma validate_speed_ceiling_fast:
  "validate example_lib speed_ceiling (vehicle 2 (PInt 101))
     = (Inr (invalid (upper_limit_message ''speed'' ''101'' ''100'')), speed_ceiling)"
  by (simp add: validate_def speed_ceiling_def get_speed
        validate_upper_limit_def Decimal_def fin_less_def fmt_d_decimal_def str_int_def
        str_nat.simps)

theorem validate_without_increment_stateless_witness:
  "increment speed_ceiling = None
   \<and> validate example_lib speed_ceiling (vehicle 2 (PInt 101))
       = (Inr (invalid (upper_limit_message ''speed'' ''101'' ''100'')), speed_ceiling)
   \<and> validate example_lib (snd (validate example_lib speed_ceiling (vehicle 2 (PInt 101))))
         (vehicle 2 (PInt 101))
       = validate example_lib speed_ceiling (vehicle 2 (PInt 101))
   \<and> fst (validate example_lib (speed_ceiling\<lparr>previous_value := Some (PInt 7)\<rparr>)
         (vehicle 2 (PInt 101)))
       = fst (validate example_lib speed_ceiling (vehicle 2 (PInt 101)))"
proof -
  have none: "increment speed_ceiling = None"
    by (simp add: speed_ceiling_def)
  show ?thesis
    using none validate_speed_ceiling_fast
      validate_without_increment_stateless
        [OF none, of example_lib "vehicle 2 (PInt 101)" "Some (PInt 7)"]
    by simp
qed

section \<open>The increment check\<close>

lemma get_n: "path self = ''n'' \<Longrightarrow> get_field_value lib self (reading i) = Inr (PInt i)"
  by (simp add: get_field_value_def reading_def dict_get_def)

lemma counter_configured: "Field_init example_lib counter_section = Inr counter"
  by (simp add: Field_init_def counter_section_def plain_section_def optional_def
        example_lib_def counter_def)

lemma validate_counter_first:
  "validate lib counter (reading i) = (Inr passed, counter\<lparr>previous_value := Some (PInt i)\<rparr>)"
  by (simp add: validate_def counter_def get_n
        validate_upper_limit_def validate_lower_limit_def validate_values_def
        validate_equals_value_def validate_increment_def validate_timestamp_def
        TYPE_TIMESTAMP_def)

lemma validate_counter_next:
  "validate lib (counter\<lparr>previous_value := Some (PInt p)\<rparr>) (reading i) =
     (if i = p + 1 then (Inr passed, counter\<lparr>previous_value := Some (PInt p)\<rparr>)
      else (Inr (invalid (increment_message ''n'' (str_int i) (str_int (p + 1)) (str_int 1))),
            counter\<lparr>previous_value := Some (PInt i)\<rparr>))"
  by (simp add: validate_def counter_def get_n
        validate_upper_limit_def validate_lower_limit_def validate_values_def
        validate_equals_value_def validate_increment_def validate_timestamp_def
        TYPE_TIMESTAMP_def add_int_def ne_int_def fmt_d_def)

lemma str_int_digit: "str_int 1 = ''1''" "str_int 6 = ''6''" "str_int 7 = ''7''"
  by (simp_all add: str_int_def str_nat.simps)

text \<open>
  Claim C1. With \<^verbatim>\<open>Increment = 1\<close>, the values 5, 6, 7 are each the successor of the
  one before, and the claim expects three valid results. The code gives valid, valid and
  then invalid: the passing call on 6 does not store 6, so 7 is compared with 5 + 1 and
  reported with the expected successor 6. The second half of the claim holds: 5 then 7
  gives an invalid second result that names the expected successor 6.
\<close>

theorem increment_5_6_7_third_invalid:
  "fst (validate lib counter (reading 5)) = Inr passed
   \<and> fst (validate lib (snd (validate lib counter (reading 5))) (reading 6)) = Inr passed
   \<and> fst (validate lib
            (snd (validate lib (snd (validate lib counter (reading 5))) (reading 6)))
            (reading 7))
       = Inr (invalid (increment_message ''n'' ''7'' ''6'' ''1''))
   \<and> fst (validate lib (snd (validate lib counter (reading 5))) (reading 7))
       = Inr (invalid (increment_message ''n'' ''7'' ''6'' ''1''))"
  by (simp add: validate_counter_first validate_counter_next str_int_digit)

text \<open>
  Claim C2. After the baseline call, a call whose value is the expected successor
  leaves \<^verbatim>\<open>previous_value\<close> as it was: the assignment of line 77 is inside the
  mismatch branch only. After 5 and then 6 the stored value is still 5; after 5 and then
  7, a mismatch, it is 7.
\<close>

theorem increment_pass_keeps_previous_value:
  "previous_value (snd (validate lib (snd (validate lib counter (reading 5))) (reading 6)))
     = Some (PInt 5)
   \<and> previous_value (snd (validate lib (snd (validate lib counter (reading 5))) (reading 7)))
     = Some (PInt 7)"
  by (simp add: validate_counter_first validate_counter_next)

section \<open>The order of the checks in validate\<close>



















section \<open>Value extraction\<close>

lemma descend_append:
  "descend (xs @ ys) v = (case descend xs v of None \<Rightarrow> None | Some u \<Rightarrow> descend ys u)"
  by (induction xs arbitrary: v) (simp_all split: pyval.splits)

lemma split_not_empty: "split c s \<noteq> []"
  by (induction s) (simp_all split: list.splits)

lemma descend_not_mapping:
  assumes "\<forall>kvs. v \<noteq> PDict kvs"
  shows "descend (key # post) v = None"
  using assms by (cases v) simp_all

lemma validate_raises_traversal:
  assumes "descend (split CHR ''.'' (path self)) data = None"
  shows "get_field_value lib self data
           = Inl (ValidatorException (traversal_message lib (path self) data))"
    and "validate lib self data
           = (Inl (ValidatorException (traversal_message lib (path self) data)), self)"
  using assms by (simp_all add: validate_def get_field_value_def)

text \<open>
  Claim C4. Let the value reached after some of the keys of the path, with at least one
  key still to follow, be anything but a dictionary: then extraction raises a
  \<^verbatim>\<open>ValidatorException\<close> whose message names the path and the record, and
  \<^verbatim>\<open>validate\<close> ends with that exception. Let all the keys but the last lead through
  dictionaries and the last key be absent from the last dictionary: then extraction
  returns \<^verbatim>\<open>None\<close> and \<^verbatim>\<open>validate\<close> returns the invalid result with the reason
  \<^verbatim>\<open>Field '<path>' missing\<close>, raising nothing.
\<close>

theorem traversal_error_and_missing_leaf:
  "(split CHR ''.'' (path self) = pre @ key # post \<and> descend pre data = Some v
      \<and> (\<forall>kvs. v \<noteq> PDict kvs)
      \<longrightarrow> get_field_value lib self data
            = Inl (ValidatorException (traversal_message lib (path self) data))
        \<and> validate lib self data
            = (Inl (ValidatorException (traversal_message lib (path self) data)), self))
   \<and> (split CHR ''.'' (path self) = pre @ [key] \<and> descend pre data = Some (PDict kvs)
      \<and> map_of kvs key = None
      \<longrightarrow> get_field_value lib self data = Inr PNone
        \<and> validate lib self data = (Inr (invalid (missing_message (path self))), self))"
proof (intro conjI impI)
  assume a: "split CHR ''.'' (path self) = pre @ key # post \<and> descend pre data = Some v
      \<and> (\<forall>kvs. v \<noteq> PDict kvs)"
  then have "descend (key # post) v = None"
    by (intro descend_not_mapping) simp
  with a have "descend (split CHR ''.'' (path self)) data = None"
    by (simp add: descend_append)
  then show "get_field_value lib self data
            = Inl (ValidatorException (traversal_message lib (path self) data))"
    and "validate lib self data
            = (Inl (ValidatorException (traversal_message lib (path self) data)), self)"
    by (rule validate_raises_traversal)+
next
  assume a: "split CHR ''.'' (path self) = pre @ [key] \<and> descend pre data = Some (PDict kvs)
      \<and> map_of kvs key = None"
  then have "descend (split CHR ''.'' (path self)) data = Some PNone"
    by (simp add: descend_append dict_get_def)
  then show "get_field_value lib self data = Inr PNone"
    and "validate lib self data = (Inr (invalid (missing_message (path self))), self)"
    by (simp_all add: validate_def get_field_value_def)
qed

theorem traversal_error_and_missing_leaf_witness:
  "split CHR ''.'' (path (plain_rule ''speed.value'')) = [''speed''] @ ''value'' # []
   \<and> descend [''speed''] (vehicle 1 (PInt 50)) = Some (PInt 50)
   \<and> validate example_lib (plain_rule ''speed.value'') (vehicle 1 (PInt 50))
       = (Inl (ValidatorException
            (''Could not find field with path '' @ quoted ''speed.value'' @ '' in message: ''
               @ quoted repr_slow)),
          plain_rule ''speed.value'')
   \<and> split CHR ''.'' (path (plain_rule ''metadata.serialId.bundleId''))
       = [''metadata'', ''serialId''] @ [''bundleId'']
   \<and> descend [''metadata'', ''serialId''] (vehicle 1 (PInt 50))
       = Some (PDict [(''recordId'', PInt 1)])
   \<and> map_of [(''recordId'', PInt 1)] ''bundleId'' = None
   \<and> validate example_lib (plain_rule ''metadata.serialId.bundleId'') (vehicle 1 (PInt 50))
       = (Inr (invalid (''Field '' @ quoted ''metadata.serialId.bundleId'' @ '' missing'')),
          plain_rule ''metadata.serialId.bundleId'')"
proof -
  have s1: "split CHR ''.'' (path (plain_rule ''speed.value'')) = [''speed''] @ ''value'' # []"
    by (simp add: plain_rule_def)
  have d1: "descend [''speed''] (vehicle 1 (PInt 50)) = Some (PInt 50)"
    by (simp add: vehicle_def dict_get_def)
  have n1: "\<forall>kvs. PInt 50 \<noteq> PDict kvs"
    by simp
  have s2: "split CHR ''.'' (path (plain_rule ''metadata.serialId.bundleId''))
       = [''metadata'', ''serialId''] @ [''bundleId'']"
    by (simp add: plain_rule_def)
  have d2: "descend [''metadata'', ''serialId''] (vehicle 1 (PInt 50))
       = Some (PDict [(''recordId'', PInt 1)])"
    by (simp add: vehicle_def dict_get_def)
  have m2: "map_of [(''recordId'', PInt 1)] ''bundleId'' = None"
    by simp
  have p: "path (plain_rule q) = q" for q
    by (simp add: plain_rule_def)
  have msg: "traversal_message example_lib ''speed.value'' (vehicle 1 (PInt 50))
      = ''Could not find field with path '' @ quoted ''speed.value'' @ '' in message: ''
               @ quoted repr_slow"
    by (simp add: traversal_message_def py_str_def vehicle_def example_lib_def)
  from traversal_error_and_missing_leaf [where self = "plain_rule ''speed.value''" and pre = "[''speed'']"
          and key = "''value''" and post = "[]" and data = "vehicle 1 (PInt 50)"
          and v = "PInt 50" and lib = example_lib] s1 d1 n1
  have r1: "validate example_lib (plain_rule ''speed.value'') (vehicle 1 (PInt 50))
       = (Inl (ValidatorException
            (traversal_message example_lib ''speed.value'' (vehicle 1 (PInt 50)))),
          plain_rule ''speed.value'')"
    by (simp add: p)
  from traversal_error_and_missing_leaf [where self = "plain_rule ''metadata.serialId.bundleId''"
          and pre = "[''metadata'', ''serialId'']" and key = "''bundleId''"
          and data = "vehicle 1 (PInt 50)" and kvs = "[(''recordId'', PInt 1)]"
          and lib = example_lib] s2 d2 m2
  have r2: "validate example_lib (plain_rule ''metadata.serialId.bundleId'')
        (vehicle 1 (PInt 50))
       = (Inr (invalid (missing_message ''metadata.serialId.bundleId'')),
          plain_rule ''metadata.serialId.bundleId'')"
    by (simp add: p)
  from s1 d1 s2 d2 m2 r1 r2 msg show ?thesis
    by (simp add: missing_message_def)
qed

lemma missing_message_distinct:
  "missing_message p \<noteq> empty_message p"
  "missing_message p \<noteq> upper_limit_message p a b"
  "missing_message p \<noteq> lower_limit_message p a b"
  "missing_message p \<noteq> values_message p a xs"
  "missing_message p \<noteq> equals_value_message p a b"
  "missing_message p \<noteq> increment_message p a b c"
  "missing_message p \<noteq> timestamp_message p e"
  by (simp_all add: missing_message_def empty_message_def upper_limit_message_def
        lower_limit_message_def values_message_def equals_value_message_def
        increment_message_def timestamp_message_def quoted_def)

lemmas missing_message_other =
  missing_message_distinct missing_message_distinct [symmetric] invalid_eq invalid_not_passed

lemma timestamp_never_missing:
  "validate_timestamp lib self v \<noteq> Inr (invalid (missing_message (path self)))"
  by (simp add: validate_timestamp_def missing_message_other split: parse_outcome.splits)

lemma increment_never_missing:
  "fst (validate_increment lib self v) \<noteq> Inr (invalid (missing_message (path self)))"
  by (simp add: validate_increment_def timestamp_never_missing missing_message_other
        validate_timestamp_previous_value split: option.splits sum.splits)

lemma equals_value_never_missing:
  "fst (validate_equals_value lib self v) \<noteq> Inr (invalid (missing_message (path self)))"
  by (simp add: validate_equals_value_def increment_never_missing missing_message_other
        split: option.splits)

lemma values_never_missing:
  "fst (validate_values lib self v) \<noteq> Inr (invalid (missing_message (path self)))"
  by (simp add: validate_values_def equals_value_never_missing missing_message_other
        split: option.splits sum.splits bool.splits)

lemma lower_limit_never_missing:
  "fst (validate_lower_limit lib self v) \<noteq> Inr (invalid (missing_message (path self)))"
  by (simp add: validate_lower_limit_def values_never_missing missing_message_other
        split: option.splits sum.splits bool.splits)

lemma upper_limit_never_missing:
  "fst (validate_upper_limit lib self v) \<noteq> Inr (invalid (missing_message (path self)))"
  by (simp add: validate_upper_limit_def lower_limit_never_missing missing_message_other
        split: option.splits sum.splits bool.splits)

lemma missing_result_iff:
  "fst (validate lib self data) = Inr (invalid (missing_message (path self)))
     \<longleftrightarrow> get_field_value lib self data = Inr PNone"
  by (auto simp: validate_def upper_limit_never_missing missing_message_other
        split: sum.splits if_splits)

lemma descend_last:
  assumes "descend keys data = Some v" and "keys \<noteq> []"
  shows "\<exists>kvs. descend (butlast keys) data = Some (PDict kvs) \<and> v = dict_get kvs (last keys)"
proof -
  from assms(2) have keys: "keys = butlast keys @ [last keys]"
    by simp
  from assms(1) obtain u where u: "descend (butlast keys) data = Some u"
    and l: "descend [last keys] u = Some v"
    by (subst (asm) keys) (auto simp: descend_append split: option.splits)
  from l obtain kvs where "u = PDict kvs" "v = dict_get kvs (last keys)"
    by (cases u) simp_all
  with u show ?thesis by simp
qed

lemma missing_result_last_lookup:
  "fst (validate lib self data) = Inr (invalid (missing_message (path self)))
     \<longleftrightarrow> (\<exists>final. descend (butlast (split CHR ''.'' (path self))) data = Some (PDict final)
            \<and> (map_of final (last (split CHR ''.'' (path self))) = None
               \<or> map_of final (last (split CHR ''.'' (path self))) = Some PNone))"
proof
  assume "fst (validate lib self data) = Inr (invalid (missing_message (path self)))"
  then have "descend (split CHR ''.'' (path self)) data = Some PNone"
    by (simp add: missing_result_iff get_field_value_def split: option.splits)
  from descend_last [OF this split_not_empty]
  obtain final where "descend (butlast (split CHR ''.'' (path self))) data = Some (PDict final)"
    and "dict_get final (last (split CHR ''.'' (path self))) = PNone"
    by auto
  then show "\<exists>final. descend (butlast (split CHR ''.'' (path self))) data = Some (PDict final)
            \<and> (map_of final (last (split CHR ''.'' (path self))) = None
               \<or> map_of final (last (split CHR ''.'' (path self))) = Some PNone)"
    by (auto simp: dict_get_def split: option.splits)
next
  assume "\<exists>final. descend (butlast (split CHR ''.'' (path self))) data = Some (PDict final)
            \<and> (map_of final (last (split CHR ''.'' (path self))) = None
               \<or> map_of final (last (split CHR ''.'' (path self))) = Some PNone)"
  then obtain final
    where final: "descend (butlast (split CHR ''.'' (path self))) data = Some (PDict final)"
      and leaf: "dict_get final (last (split CHR ''.'' (path self))) = PNone"
    by (auto simp: dict_get_def)
  have "descend (butlast (split CHR ''.'' (path self)) @ [last (split CHR ''.'' (path self))])
      data = Some PNone"
    using final leaf by (simp add: descend_append)
  then have "descend (split CHR ''.'' (path self)) data = Some PNone"
    by (simp add: split_not_empty)
  then show "fst (validate lib self data) = Inr (invalid (missing_message (path self)))"
    by (simp add: missing_result_iff get_field_value_def)
qed

text \<open>
  Claim C10, amended. When a key of the path that is not the last one is absent from
  the dictionary it is looked up in, \<^verbatim>\<open>validate\<close> ends with the traversal exception.
  \<^verbatim>\<open>validate\<close> returns the missing result exactly when all the keys but the last lead
  through dictionaries and the last dictionary either lacks the last key or holds
  \<^verbatim>\<open>None\<close> (the JSON \<^verbatim>\<open>null\<close>) for it.
\<close>

theorem absent_intermediate_key_raises:
  "(split CHR ''.'' (path self) = pre @ key # next_key # post
      \<and> descend pre data = Some (PDict kvs) \<and> map_of kvs key = None
      \<longrightarrow> validate lib self data
            = (Inl (ValidatorException (traversal_message lib (path self) data)), self))
   \<and> (fst (validate lib self data) = Inr (invalid (missing_message (path self)))
      \<longleftrightarrow> (\<exists>final. descend (butlast (split CHR ''.'' (path self))) data = Some (PDict final)
             \<and> (map_of final (last (split CHR ''.'' (path self))) = None
                \<or> map_of final (last (split CHR ''.'' (path self))) = Some PNone)))"
proof (intro conjI impI)
  assume a: "split CHR ''.'' (path self) = pre @ key # next_key # post
      \<and> descend pre data = Some (PDict kvs) \<and> map_of kvs key = None"
  then have "descend (split CHR ''.'' (path self)) data = None"
    by (simp add: descend_append dict_get_def)
  then show "validate lib self data
            = (Inl (ValidatorException (traversal_message lib (path self) data)), self)"
    by (rule validate_raises_traversal)
next
  show "fst (validate lib self data) = Inr (invalid (missing_message (path self)))
      \<longleftrightarrow> (\<exists>final. descend (butlast (split CHR ''.'' (path self))) data = Some (PDict final)
             \<and> (map_of final (last (split CHR ''.'' (path self))) = None
                \<or> map_of final (last (split CHR ''.'' (path self))) = Some PNone))"
    by (rule missing_result_last_lookup)
qed

text \<open>
  The claim as stated fails: in the record \<^verbatim>\<open>{"a": null}\<close> the key \<^verbatim>\<open>a\<close> is present,
  and the rule with \<^verbatim>\<open>Path = a\<close> gets the missing result all the same.
\<close>

theorem null_leaf_gives_missing_result:
  "split CHR ''.'' (path (plain_rule ''a'')) = [''a'']
   \<and> map_of [(''a'', PNone)] ''a'' = Some PNone
   \<and> validate example_lib (plain_rule ''a'') (PDict [(''a'', PNone)])
       = (Inr (invalid (missing_message ''a'')), plain_rule ''a'')"
  by (simp add: validate_def get_field_value_def plain_rule_def dict_get_def)

theorem absent_intermediate_key_raises_witness:
  "split CHR ''.'' (path (plain_rule ''payload.data.speed''))
       = [] @ ''payload'' # ''data'' # [''speed'']
   \<and> map_of [(''metadata'', PDict [(''serialId'', PDict [(''recordId'', PInt 1)])]),
              (''speed'', PInt 50)] ''payload'' = None
   \<and> validate example_lib (plain_rule ''payload.data.speed'') (vehicle 1 (PInt 50))
       = (Inl (ValidatorException
            (''Could not find field with path '' @ quoted ''payload.data.speed''
               @ '' in message: '' @ quoted repr_slow)),
          plain_rule ''payload.data.speed'')
   \<and> fst (validate example_lib (plain_rule ''payload'') (vehicle 1 (PInt 50)))
       = Inr (invalid (missing_message ''payload''))
   \<and> fst (validate example_lib (plain_rule ''a'') (PDict [(''a'', PNone)]))
       = Inr (invalid (missing_message ''a''))
   \<and> fst (validate example_lib (plain_rule ''speed'') (vehicle 1 (PInt 50)))
       \<noteq> Inr (invalid (missing_message ''speed''))
   \<and> fst (validate example_lib (plain_rule ''speed'') (vehicle 1 (PInt 50))) = Inr passed"
proof -
  have p: "path (plain_rule q) = q" for q
    by (simp add: plain_rule_def)
  have s1: "split CHR ''.'' (path (plain_rule ''payload.data.speed''))
       = [] @ ''payload'' # ''data'' # [''speed'']"
    by (simp add: plain_rule_def)
  have d1: "descend [] (vehicle 1 (PInt 50))
      = Some (PDict [(''metadata'', PDict [(''serialId'', PDict [(''recordId'', PInt 1)])]),
              (''speed'', PInt 50)])"
    by (simp add: vehicle_def)
  have m1: "map_of [(''metadata'', PDict [(''serialId'', PDict [(''recordId'', PInt 1)])]),
              (''speed'', PInt 50)] ''payload'' = None"
    by simp
  have msg: "traversal_message example_lib ''payload.data.speed'' (vehicle 1 (PInt 50))
      = ''Could not find field with path '' @ quoted ''payload.data.speed''
               @ '' in message: '' @ quoted repr_slow"
    by (simp add: traversal_message_def py_str_def vehicle_def example_lib_def)
  note inst = absent_intermediate_key_raises [where lib = example_lib]
  from inst [where self = "plain_rule ''payload.data.speed''" and pre = "[]"
      and key = "''payload''" and next_key = "''data''" and post = "[''speed'']"
      and data = "vehicle 1 (PInt 50)"] s1 d1 m1 msg
  have r1: "validate example_lib (plain_rule ''payload.data.speed'') (vehicle 1 (PInt 50))
       = (Inl (ValidatorException
            (''Could not find field with path '' @ quoted ''payload.data.speed''
               @ '' in message: '' @ quoted repr_slow)),
          plain_rule ''payload.data.speed'')"
    by (simp add: p)
  from inst [where self = "plain_rule ''payload''" and data = "vehicle 1 (PInt 50)"]
  have r2: "fst (validate example_lib (plain_rule ''payload'') (vehicle 1 (PInt 50)))
       = Inr (invalid (missing_message ''payload''))"
    by (simp add: p vehicle_def)
  from inst [where self = "plain_rule ''a''" and data = "PDict [(''a'', PNone)]"]
  have r3: "fst (validate example_lib (plain_rule ''a'') (PDict [(''a'', PNone)]))
       = Inr (invalid (missing_message ''a''))"
    by (simp add: p)
  from inst [where self = "plain_rule ''speed''" and data = "vehicle 1 (PInt 50)"]
  have r4: "fst (validate example_lib (plain_rule ''speed'') (vehicle 1 (PInt 50)))
       \<noteq> Inr (invalid (missing_message ''speed''))"
    by (simp add: p vehicle_def)
  have r5: "fst (validate example_lib (plain_rule ''speed'') (vehicle 1 (PInt 50))) = Inr passed"
    by (simp add: validate_def plain_rule_def get_speed validate_upper_limit_def
          validate_lower_limit_def validate_values_def validate_equals_value_def
          validate_increment_def validate_timestamp_def TYPE_TIMESTAMP_def)
  from s1 m1 r1 r2 r3 r4 r5 show ?thesis
    by simp
qed

section \<open>Upper and lower limits\<close>

lemma scaled_value:
  assumes "m \<le> e"
  shows "(of_int (c * 10 ^ nat (e - m)) :: rat) * 10 powi m = of_int c * 10 powi e"
proof -
  have "(10::rat) powi e = 10 powi (e - m) * 10 powi m"
    by (simp add: power_int_add [symmetric])
  moreover have "(10::rat) powi (e - m) = 10 ^ nat (e - m)"
    using assms by (simp add: power_int_def)
  ultimately show ?thesis by simp
qed

lemma fin_less_exact:
  "fin_less c1 e1 c2 e2 \<longleftrightarrow> (of_int c1 * 10 powi e1 :: rat) < of_int c2 * 10 powi e2"
proof -
  define m where "m = min e1 e2"
  have pos: "(0::rat) < 10 powi m"
    by simp
  have s1: "(of_int (c1 * 10 ^ nat (e1 - m)) :: rat) * 10 powi m = of_int c1 * 10 powi e1"
    by (rule scaled_value) (simp add: m_def)
  have s2: "(of_int (c2 * 10 ^ nat (e2 - m)) :: rat) * 10 powi m = of_int c2 * 10 powi e2"
    by (rule scaled_value) (simp add: m_def)
  have "(of_int c1 * 10 powi e1 :: rat) < of_int c2 * 10 powi e2
      \<longleftrightarrow> (of_int (c1 * 10 ^ nat (e1 - m)) :: rat) * 10 powi m
            < of_int (c2 * 10 ^ nat (e2 - m)) * 10 powi m"
    by (simp only: s1 s2)
  also have "\<dots> \<longleftrightarrow> (of_int (c1 * 10 ^ nat (e1 - m)) :: rat) < of_int (c2 * 10 ^ nat (e2 - m))"
    using pos by (simp only: mult_less_cancel_right_pos)
  also have "\<dots> \<longleftrightarrow> c1 * 10 ^ nat (e1 - m) < c2 * 10 ^ nat (e2 - m)"
    by (simp only: of_int_less_iff)
  finally show ?thesis
    by (simp add: fin_less_def m_def)
qed

lemma fmt_d_decimal_finite: "\<exists>s. fmt_d_decimal (DFin c e) = Inr s"
  by (simp add: fmt_d_decimal_def)

text \<open>
  Claim C5. Take a rule whose only constraint is \<^verbatim>\<open>UpperLimit = 100\<close> and a value that
  \<^verbatim>\<open>Decimal\<close> reads as the finite number \<open>c\<close> times ten to the \<open>e\<close>. The result is
  valid exactly when that number, as a rational, is at most 100: the limit itself is
  valid, 101 is not. With \<^verbatim>\<open>LowerLimit = 100\<close> as the only constraint, the result is
  valid exactly when the number is at least 100: 100 is valid, 99 is not. The comparison
  is the one of \<open>fin_less\<close>, on integer coefficients of any size brought to a common
  exponent, and it agrees with the order of the rationals: nothing is rounded.
\<close>

theorem limit_boundary_inclusive:
  assumes "get_field_value lib self data = Inr v" and "v \<noteq> PNone" and "v \<noteq> PStr []"
    and "Decimal lib v = Inr (DFin c e)"
    and "values self = None" and "equals_value self = None" and "increment self = None"
    and "type self \<noteq> TYPE_TIMESTAMP"
  shows "(upper_limit self = Some (DFin 100 0) \<and> lower_limit self = None
          \<longrightarrow> (\<exists>r. validate lib self data = (Inr r, self)
                 \<and> (valid r \<longleftrightarrow> (of_int c * 10 powi e :: rat) \<le> 100)))
       \<and> (lower_limit self = Some (DFin 100 0) \<and> upper_limit self = None
          \<longrightarrow> (\<exists>r. validate lib self data = (Inr r, self)
                 \<and> (valid r \<longleftrightarrow> 100 \<le> (of_int c * 10 powi e :: rat))))"
proof -
  obtain shown where shown: "fmt_d_decimal (DFin c e) = Inr shown"
    using fmt_d_decimal_finite by blast
  obtain limit where limit: "fmt_d_decimal (DFin 100 0) = Inr limit"
    using fmt_d_decimal_finite by blast
  have rest: "validate_values lib self v = (Inr passed, self)"
    using assms
    by (simp add: validate_values_def validate_equals_value_def validate_increment_def
          validate_timestamp_def)
  have up: "fin_less 100 0 c e \<longleftrightarrow> \<not> (of_int c * 10 powi e :: rat) \<le> 100"
    by (simp add: fin_less_exact not_le)
  have low: "fin_less c e 100 0 \<longleftrightarrow> \<not> 100 \<le> (of_int c * 10 powi e :: rat)"
    by (simp add: fin_less_exact not_le)
  show ?thesis
    using assms shown limit rest up low
    by (auto simp: validate_def validate_upper_limit_def validate_lower_limit_def
          invalid_def passed_def)
qed

theorem limit_boundary_inclusive_witness:
  "(\<exists>r. validate example_lib speed_ceiling (vehicle 1 (PInt 100)) = (Inr r, speed_ceiling)
        \<and> valid r)
   \<and> (\<exists>r. validate example_lib speed_ceiling (vehicle 1 (PInt 101)) = (Inr r, speed_ceiling)
        \<and> \<not> valid r)
   \<and> (\<exists>r. validate example_lib speed_ceiling (vehicle 1 (PStr ''100.5''))
          = (Inr r, speed_ceiling)
        \<and> \<not> valid r)
   \<and> (\<exists>r. validate example_lib speed_floor (vehicle 1 (PInt 100)) = (Inr r, speed_floor)
        \<and> valid r)
   \<and> (\<exists>r. validate example_lib speed_floor (vehicle 1 (PInt 99)) = (Inr r, speed_floor)
        \<and> \<not> valid r)"
proof -
  note ceiling = limit_boundary_inclusive [where lib = example_lib and self = speed_ceiling]
  note floor = limit_boundary_inclusive [where lib = example_lib and self = speed_floor]
  have d: "Decimal example_lib (PInt n) = Inr (DFin n 0)" for n
    by (simp add: Decimal_def)
  have t: "Decimal example_lib (PStr ''100.5'') = Inr (DFin 1005 (- 1))"
    by (simp add: Decimal_def example_lib_def)
  have c100: "\<exists>r. validate example_lib speed_ceiling (vehicle 1 (PInt 100))
        = (Inr r, speed_ceiling) \<and> valid r"
    using ceiling [where data = "vehicle 1 (PInt 100)" and v = "PInt 100" and c = 100 and e = 0]
    by (simp add: get_speed d speed_ceiling_def TYPE_TIMESTAMP_def)
  have c101: "\<exists>r. validate example_lib speed_ceiling (vehicle 1 (PInt 101))
        = (Inr r, speed_ceiling) \<and> \<not> valid r"
    using ceiling [where data = "vehicle 1 (PInt 101)" and v = "PInt 101" and c = 101 and e = 0]
    by (simp add: get_speed d speed_ceiling_def TYPE_TIMESTAMP_def)
  have c1005: "\<exists>r. validate example_lib speed_ceiling (vehicle 1 (PStr ''100.5''))
        = (Inr r, speed_ceiling) \<and> \<not> valid r"
    using ceiling [where data = "vehicle 1 (PStr ''100.5'')" and v = "PStr ''100.5''"
        and c = 1005 and e = "- 1"] t
    by (simp add: get_speed speed_ceiling_def TYPE_TIMESTAMP_def)
  have f100: "\<exists>r. validate example_lib speed_floor (vehicle 1 (PInt 100))
        = (Inr r, speed_floor) \<and> valid r"
    using floor [where data = "vehicle 1 (PInt 100)" and v = "PInt 100" and c = 100 and e = 0]
    by (simp add: get_speed d speed_floor_def TYPE_TIMESTAMP_def)
  have f99: "\<exists>r. validate example_lib speed_floor (vehicle 1 (PInt 99))
        = (Inr r, speed_floor) \<and> \<not> valid r"
    using floor [where data = "vehicle 1 (PInt 99)" and v = "PInt 99" and c = 99 and e = 0]
    by (simp add: get_speed d speed_floor_def TYPE_TIMESTAMP_def)
  from c100 c101 c1005 f100 f99 show ?thesis
    by blast
qed

section \<open>Construction\<close>

lemma load_fields_fails:
  assumes "field \<in> set config" and "section_name field \<noteq> ''_settings''"
    and "Field_init lib field = Inl e"
  shows "\<exists>e'. load_fields lib config = Inl e'"
  using assms by (induction config) (auto split: sum.splits)

lemma load_fields_append:
  "load_fields lib (before @ rest) =
     (case load_fields lib before of
        Inl e \<Rightarrow> Inl e
      | Inr rules \<Rightarrow>
          (case load_fields lib rest of Inl e \<Rightarrow> Inl e | Inr others \<Rightarrow> Inr (rules @ others)))"
  by (induction before) (simp_all split: sum.splits)

lemma load_fields_first_failure:
  assumes "load_fields lib before = Inr rules" and "section_name field \<noteq> ''_settings''"
    and "Field_init lib field = Inl e"
  shows "load_fields lib (before @ field # after) = Inl e"
  using assms by (simp add: load_fields_append)

lemma unreadable_limit_raises:
  assumes "section_get field ''Path'' = Inr (Some p)"
    and "section_get field ''Type'' = Inr (Some t)"
    and "section_get field ''UpperLimit'' = Inl e"
  shows "Field_init lib field = Inl e"
  using assms by (simp add: Field_init_def optional_def)

lemma percent_section_raises: "Field_init lib percent_section = Inl InterpolationError"
  by (rule unreadable_limit_raises [where p = "''speed''" and t = "''decimal''"])
    (simp_all add: percent_section_def)

text \<open>
  Claim C6, amended. Let \<^verbatim>\<open>Path\<close> and \<^verbatim>\<open>Type\<close> be present and let the options be read
  without an exception of the interpolation, up to the faulty one. When the text of
  \<^verbatim>\<open>UpperLimit\<close> or of \<^verbatim>\<open>LowerLimit\<close> is not a decimal numeral, \<^verbatim>\<open>Field.__init__\<close>
  ends with the exception of \<^verbatim>\<open>Decimal\<close>, \<^verbatim>\<open>decimal.InvalidOperation\<close>, which the code
  does not turn into a \<^verbatim>\<open>ValidatorException\<close>. A configuration with such a section
  (not the reserved one) yields no test case, so no record is processed: construction
  of the test case ends with that same exception when every section before the faulty
  one constructs, and with some exception in any case.
\<close>

theorem invalid_limit_text_raises_invalid_operation:
  assumes "section_get field ''Path'' = Inr (Some p)"
    and "section_get field ''Type'' = Inr (Some t)"
    and "(\<exists>text. section_get field ''UpperLimit'' = Inr (Some text)
            \<and> decimal_of_str lib text = None)
       \<or> (\<exists>upper text. section_get field ''UpperLimit'' = Inr upper
            \<and> section_get field ''LowerLimit'' = Inr (Some text)
            \<and> decimal_of_str lib text = None)"
  shows "Field_init lib field = Inl InvalidOperation
     \<and> (section_name field \<noteq> ''_settings'' \<and> load_fields lib before = Inr rules
          \<longrightarrow> TestCase_init lib (before @ field # after) = Inl InvalidOperation)
     \<and> (section_name field \<noteq> ''_settings'' \<and> field \<in> set config
          \<longrightarrow> (\<exists>e. TestCase_init lib config = Inl e))"
proof -
  have init: "Field_init lib field = Inl InvalidOperation"
    using assms by (auto simp: Field_init_def optional_def split: option.splits)
  have first: "TestCase_init lib (before @ field # after) = Inl InvalidOperation"
    if "section_name field \<noteq> ''_settings'' \<and> load_fields lib before = Inr rules"
    using that load_fields_first_failure [of lib before rules field InvalidOperation after] init
    by (simp add: TestCase_init_def)
  have some: "\<exists>e. TestCase_init lib config = Inl e"
    if "section_name field \<noteq> ''_settings'' \<and> field \<in> set config"
    using that load_fields_fails [of field config lib InvalidOperation] init
    by (auto simp: TestCase_init_def)
  from init first some show ?thesis
    by blast
qed

text \<open>
  The claim as stated fails: with \<^verbatim>\<open>UpperLimit = abc\<close> the exception that leaves
  \<^verbatim>\<open>__init__\<close> is the one \<^verbatim>\<open>Decimal\<close> raises, not a \<^verbatim>\<open>ValidatorException\<close>.
\<close>

theorem invalid_limit_text_not_validator_exception:
  "Field_init example_lib (ceiling_section ''speed'' ''abc'') = Inl InvalidOperation
   \<and> \<not> is_ValidatorException InvalidOperation"
  by (simp add: Field_init_def ceiling_section_def plain_section_def optional_def
        example_lib_def)

theorem invalid_limit_text_raises_invalid_operation_witness:
  "section_get (ceiling_section ''rpm'' ''abc'') ''Path'' = Inr (Some ''rpm'')
   \<and> section_get (ceiling_section ''rpm'' ''abc'') ''Type'' = Inr (Some ''decimal'')
   \<and> section_get (ceiling_section ''rpm'' ''abc'') ''UpperLimit'' = Inr (Some ''abc'')
   \<and> decimal_of_str example_lib ''abc'' = None
   \<and> Field_init example_lib (ceiling_section ''rpm'' ''abc'') = Inl InvalidOperation
   \<and> load_fields example_lib [ceiling_section ''speed'' ''100''] = Inr [speed_ceiling]
   \<and> TestCase_init example_lib
         ([ceiling_section ''speed'' ''100''] @ ceiling_section ''rpm'' ''abc''
            # [counter_section])
       = Inl InvalidOperation
   \<and> (\<exists>e. TestCase_init example_lib
         [ceiling_section ''speed'' ''100'', ceiling_section ''rpm'' ''abc'', counter_section]
       = Inl e)"
proof -
  have o: "section_get (ceiling_section ''rpm'' ''abc'') ''Path'' = Inr (Some ''rpm'')"
    "section_get (ceiling_section ''rpm'' ''abc'') ''Type'' = Inr (Some ''decimal'')"
    "section_get (ceiling_section ''rpm'' ''abc'') ''UpperLimit'' = Inr (Some ''abc'')"
    by (simp_all add: ceiling_section_def plain_section_def)
  have d: "decimal_of_str example_lib ''abc'' = None"
    by (simp add: example_lib_def)
  have name: "section_name (ceiling_section n l) = n" for n l
    by (simp add: ceiling_section_def plain_section_def)
  have good: "load_fields example_lib [ceiling_section ''speed'' ''100''] = Inr [speed_ceiling]"
    by (simp add: name)
      (simp add: Field_init_def ceiling_section_def plain_section_def optional_def
        example_lib_def speed_ceiling_def)
  note inst = invalid_limit_text_raises_invalid_operation
    [where field = "ceiling_section ''rpm'' ''abc''" and lib = example_lib
       and p = "''rpm''" and t = "''decimal''"]
  from inst o d have bad: "Field_init example_lib (ceiling_section ''rpm'' ''abc'')
      = Inl InvalidOperation"
    by simp
  from inst [where before = "[ceiling_section ''speed'' ''100'']" and rules = "[speed_ceiling]"
      and after = "[counter_section]"] o d good
  have first: "TestCase_init example_lib
         ([ceiling_section ''speed'' ''100''] @ ceiling_section ''rpm'' ''abc''
            # [counter_section])
       = Inl InvalidOperation"
    by (simp add: name)
  from inst [where config = "[ceiling_section ''speed'' ''100'', ceiling_section ''rpm'' ''abc'',
      counter_section]"] o d
  have some: "\<exists>e. TestCase_init example_lib
         [ceiling_section ''speed'' ''100'', ceiling_section ''rpm'' ''abc'', counter_section]
       = Inl e"
    by (simp add: name)
  from o d bad good first some show ?thesis
    by simp
qed

section \<open>What validate changes\<close>

lemma keeps_self: "\<exists>pv. self = self\<lparr>previous_value := pv\<rparr>"
  by (rule exI [of _ "previous_value self"]) simp

lemma keeps_update: "\<exists>pv. self\<lparr>previous_value := x\<rparr> = self\<lparr>previous_value := pv\<rparr>"
  by (rule exI [of _ x]) simp

lemma increment_changes_previous_value_only:
  "\<exists>pv. snd (validate_increment lib self v) = self\<lparr>previous_value := pv\<rparr>"
  by (simp add: validate_increment_def keeps_self keeps_update split: option.splits sum.splits)

lemma equals_value_changes_previous_value_only:
  "\<exists>pv. snd (validate_equals_value lib self v) = self\<lparr>previous_value := pv\<rparr>"
  by (simp add: validate_equals_value_def keeps_self increment_changes_previous_value_only
        split: option.splits)

lemma values_changes_previous_value_only:
  "\<exists>pv. snd (validate_values lib self v) = self\<lparr>previous_value := pv\<rparr>"
  by (simp add: validate_values_def keeps_self equals_value_changes_previous_value_only
        split: option.splits sum.splits bool.splits)

lemma lower_limit_changes_previous_value_only:
  "\<exists>pv. snd (validate_lower_limit lib self v) = self\<lparr>previous_value := pv\<rparr>"
  by (simp add: validate_lower_limit_def keeps_self values_changes_previous_value_only
        split: option.splits sum.splits bool.splits)

lemma upper_limit_changes_previous_value_only:
  "\<exists>pv. snd (validate_upper_limit lib self v) = self\<lparr>previous_value := pv\<rparr>"
  by (simp add: validate_upper_limit_def keeps_self lower_limit_changes_previous_value_only
        split: option.splits sum.splits bool.splits)

lemma validate_changes_previous_value_only:
  "\<exists>pv. snd (validate lib self data) = self\<lparr>previous_value := pv\<rparr>"
  by (simp add: validate_def keeps_self upper_limit_changes_previous_value_only
        split: sum.splits)

lemma validate_keeps_path: "path (snd (validate lib self data)) = path self"
  using validate_changes_previous_value_only [of lib self data] by auto

lemma unconvertible_value_raises:
  assumes "upper_limit self \<noteq> None \<or> lower_limit self \<noteq> None"
    and "get_field_value lib self data = Inr v" and "v \<noteq> PNone" and "v \<noteq> PStr []"
    and "Decimal lib v = Inl e"
  shows "validate lib self data = (Inl e, self)"
proof -
  have "validate_upper_limit lib self v = (Inl e, self)"
    using assms(1,5)
    by (cases "upper_limit self")
      (auto simp: validate_upper_limit_def validate_lower_limit_def)
  with assms(2-4) show ?thesis
    by (simp add: validate_def)
qed

lemma validate_fields_raises:
  assumes "f \<in> set fs" and "\<forall>pv. \<exists>e. fst (validate lib (f\<lparr>previous_value := pv\<rparr>) data) = Inl e"
  shows "\<exists>e. fst (validate_fields lib fs data) = Inl e"
  using assms
proof (induction fs)
  case Nil
  then show ?case by simp
next
  case (Cons g gs)
  show ?case
  proof (cases "fst (validate lib g data)")
    case (Inl e)
    then show ?thesis by (simp add: case_prod_unfold)
  next
    case (Inr r)
    have "f \<noteq> g"
    proof
      assume "f = g"
      with Cons.prems(2) [rule_format, of "previous_value g"] Inr show False by simp
    qed
    with Cons obtain e where "fst (validate_fields lib gs data) = Inl e"
      by auto
    with Inr show ?thesis
      by (simp add: case_prod_unfold)
  qed
qed

lemma validate_fields_keeps_rules:
  "f \<in> set fs \<Longrightarrow> \<exists>pv. f\<lparr>previous_value := pv\<rparr> \<in> set (snd (validate_fields lib fs data))"
proof (induction fs)
  case Nil
  then show ?case by simp
next
  case (Cons g gs)
  obtain r g' where g: "validate lib g data = (r, g')"
    by (cases "validate lib g data")
  obtain pv where g': "g' = g\<lparr>previous_value := pv\<rparr>"
    using validate_changes_previous_value_only [of lib g data] g by auto
  obtain rs gs' where gs: "validate_fields lib gs data = (rs, gs')"
    by (cases "validate_fields lib gs data")
  show ?case
  proof (cases "f = g")
    case True
    with g g' gs have "f\<lparr>previous_value := pv\<rparr> \<in> set (snd (validate_fields lib (g # gs) data))"
      by (auto split: sum.splits)
    then show ?thesis ..
  next
    case False
    with Cons have "f \<in> set gs" by simp
    show ?thesis
    proof (cases r)
      case (Inl e)
      with g \<open>f \<in> set gs\<close> have "f\<lparr>previous_value := previous_value f\<rparr>
          \<in> set (snd (validate_fields lib (g # gs) data))"
        by simp
      then show ?thesis ..
    next
      case (Inr res)
      from Cons.IH [OF \<open>f \<in> set gs\<close>] gs obtain pv' where "f\<lparr>previous_value := pv'\<rparr> \<in> set gs'"
        by auto
      with g gs Inr have "f\<lparr>previous_value := pv'\<rparr>
          \<in> set (snd (validate_fields lib (g # gs) data))"
        by (auto split: sum.splits)
      then show ?thesis ..
    qed
  qed
qed

lemma drain_raises:
  assumes "msg \<in> set msg_queue" and "json_loads lib msg = Some data"
    and "f \<in> set (field_list tc)"
    and "\<forall>pv. \<exists>e. fst (validate lib (f\<lparr>previous_value := pv\<rparr>) data) = Inl e"
  shows "\<exists>e. fst (drain lib tc msg_queue) = Inl e"
  using assms
proof (induction msg_queue arbitrary: tc f)
  case Nil
  then show ?case by simp
next
  case (Cons m ms)
  show ?case
  proof (cases "json_loads lib m")
    case None
    then show ?thesis by simp
  next
    case (Some current_msg)
    show ?thesis
    proof (cases "record_id lib current_msg")
      case (Inl e)
      with Some show ?thesis by simp
    next
      case (Inr rid)
      obtain r fs' where v: "validate_fields lib (field_list tc) current_msg = (r, fs')"
        by (cases "validate_fields lib (field_list tc) current_msg")
      show ?thesis
      proof (cases r)
        case (Inl e)
        with Some Inr v show ?thesis
          by (simp add: TestCase_validate_def)
      next
        case r: (Inr validations)
        have "msg \<noteq> m"
        proof
          assume "msg = m"
          with Cons.prems(2) Some have "current_msg = data" by simp
          with validate_fields_raises [OF Cons.prems(3) Cons.prems(4)] v r
          show False by simp
        qed
        with Cons.prems(1) have in_rest: "msg \<in> set ms" by simp
        from validate_fields_keeps_rules [OF Cons.prems(3), of lib current_msg] v
        obtain pv where f': "f\<lparr>previous_value := pv\<rparr> \<in> set fs'"
          by auto
        have still: "\<forall>pv'. \<exists>e. fst (validate lib (f\<lparr>previous_value := pv\<rparr>\<lparr>previous_value := pv'\<rparr>) data) = Inl e"
          using Cons.prems(4) by simp
        have "\<exists>e. fst (drain lib (tc\<lparr>field_list := fs'\<rparr>) ms) = Inl e"
          by (rule Cons.IH [OF in_rest Cons.prems(2) _ still]) (simp add: f')
        with Some Inr v r show ?thesis
          by (auto simp: TestCase_validate_def case_prod_unfold)
      qed
    qed
  qed
qed

text \<open>
  Claim C9. Let an upper or a lower limit be configured and the extracted value be
  present, not the empty string, and such that \<^verbatim>\<open>Decimal\<close> raises on it. Then
  \<^verbatim>\<open>validate\<close> ends with that exception and returns no result. A batch whose rule set
  has such a rule and whose queue holds such a record ends with an exception: it returns
  no report, so the record never appears as \<^verbatim>\<open>Valid: false\<close>.
\<close>

theorem unconvertible_value_aborts_batch:
  assumes "upper_limit self \<noteq> None \<or> lower_limit self \<noteq> None"
    and "get_field_value lib self data = Inr v" and "v \<noteq> PNone" and "v \<noteq> PStr []"
    and "Decimal lib v = Inl e"
  shows "validate lib self data = (Inl e, self)
     \<and> (self \<in> set (field_list tc) \<and> msg \<in> set msg_queue \<and> json_loads lib msg = Some data
          \<longrightarrow> (\<exists>e'. fst (validate_queue lib tc msg_queue) = Inl e'))"
proof (intro conjI impI)
  show "validate lib self data = (Inl e, self)"
    using assms by (rule unconvertible_value_raises)
next
  assume a: "self \<in> set (field_list tc) \<and> msg \<in> set msg_queue
      \<and> json_loads lib msg = Some data"
  have "\<forall>pv. \<exists>e. fst (validate lib (self\<lparr>previous_value := pv\<rparr>) data) = Inl e"
  proof
    fix pv
    have "validate lib (self\<lparr>previous_value := pv\<rparr>) data = (Inl e, self\<lparr>previous_value := pv\<rparr>)"
      using assms
      by (intro unconvertible_value_raises) (simp_all add: get_field_value_previous_value)
    then show "\<exists>e. fst (validate lib (self\<lparr>previous_value := pv\<rparr>) data) = Inl e"
      by simp
  qed
  with a have "\<exists>e'. fst (drain lib tc msg_queue) = Inl e'"
    by (intro drain_raises [of msg msg_queue lib data self tc]) simp_all
  then show "\<exists>e'. fst (validate_queue lib tc msg_queue) = Inl e'"
    by (auto simp: validate_queue_def case_prod_unfold split: sum.splits)
qed

lemma get_record_id:
  "path self = ''metadata.serialId.recordId''
     \<Longrightarrow> get_field_value lib self (vehicle rid s) = Inr (PInt rid)"
  by (simp add: get_field_value_def vehicle_def dict_get_def)

lemma example_loads:
  "json_loads example_lib msg_slow = Some (vehicle 1 (PInt 50))"
  "json_loads example_lib msg_fast = Some (vehicle 2 (PInt 101))"
  "json_loads example_lib msg_text = Some (vehicle 3 (PStr ''abc''))"
  by (simp_all add: example_lib_def msg_slow_def msg_fast_def msg_text_def)

lemma record_id_vehicle: "record_id lib (vehicle rid s) = Inr (str_int rid)"
  by (simp add: record_id_def subscript_def vehicle_def py_str_def)

lemma validate_record_counter_first:
  "validate lib record_counter (vehicle rid s)
     = (Inr passed, record_counter\<lparr>previous_value := Some (PInt rid)\<rparr>)"
  by (simp add: validate_def record_counter_def get_record_id
        validate_upper_limit_def validate_lower_limit_def validate_values_def
        validate_equals_value_def validate_increment_def validate_timestamp_def
        TYPE_TIMESTAMP_def)

lemma validate_record_counter_next:
  "validate lib (record_counter\<lparr>previous_value := Some (PInt p)\<rparr>) (vehicle rid s) =
     (if rid = p + 1 then (Inr passed, record_counter\<lparr>previous_value := Some (PInt p)\<rparr>)
      else (Inr (invalid (increment_message ''metadata.serialId.recordId'' (str_int rid)
                   (str_int (p + 1)) (str_int 1))),
            record_counter\<lparr>previous_value := Some (PInt rid)\<rparr>))"
  by (simp add: validate_def record_counter_def get_record_id
        validate_upper_limit_def validate_lower_limit_def validate_values_def
        validate_equals_value_def validate_increment_def validate_timestamp_def
        TYPE_TIMESTAMP_def add_int_def ne_int_def fmt_d_def)

lemma validate_speed_ceiling_slow:
  "validate example_lib speed_ceiling (vehicle rid (PInt 50)) = (Inr passed, speed_ceiling)"
  by (simp add: validate_def speed_ceiling_def get_speed
        validate_upper_limit_def validate_lower_limit_def validate_values_def
        validate_equals_value_def validate_increment_def validate_timestamp_def
        TYPE_TIMESTAMP_def Decimal_def fin_less_def)

lemma validate_speed_ceiling_text:
  "validate example_lib speed_ceiling (vehicle rid (PStr ''abc''))
     = (Inl InvalidOperation, speed_ceiling)"
  by (simp add: validate_def speed_ceiling_def get_speed
        validate_upper_limit_def Decimal_def example_lib_def)

theorem unconvertible_value_aborts_batch_witness:
  "get_field_value example_lib speed_ceiling (vehicle 3 (PStr ''abc'')) = Inr (PStr ''abc'')
   \<and> Decimal example_lib (PStr ''abc'') = Inl InvalidOperation
   \<and> validate example_lib speed_ceiling (vehicle 3 (PStr ''abc''))
       = (Inl InvalidOperation, speed_ceiling)
   \<and> fst (validate_queue example_lib \<lparr>field_list = [record_counter, speed_ceiling]\<rparr>
        [msg_slow, msg_text]) = Inl InvalidOperation
   \<and> (\<exists>e. fst (validate_queue example_lib \<lparr>field_list = [record_counter, speed_ceiling]\<rparr>
        [msg_slow, msg_text]) = Inl e)"
proof -
  have g: "get_field_value example_lib speed_ceiling (vehicle 3 (PStr ''abc''))
      = Inr (PStr ''abc'')"
    by (simp add: get_speed speed_ceiling_def)
  have d: "Decimal example_lib (PStr ''abc'') = Inl InvalidOperation"
    by (simp add: Decimal_def example_lib_def)
  have u: "upper_limit speed_ceiling \<noteq> None \<or> lower_limit speed_ceiling \<noteq> None"
    by (simp add: speed_ceiling_def)
  note inst = unconvertible_value_aborts_batch [OF u g _ _ d, where tc = "\<lparr>field_list = [record_counter, speed_ceiling]\<rparr>"
      and msg = msg_text and msg_queue = "[msg_slow, msg_text]"]
  from inst have one: "validate example_lib speed_ceiling (vehicle 3 (PStr ''abc''))
       = (Inl InvalidOperation, speed_ceiling)"
    by simp
  from inst have batch: "\<exists>e. fst (validate_queue example_lib
        \<lparr>field_list = [record_counter, speed_ceiling]\<rparr> [msg_slow, msg_text]) = Inl e"
    by (simp add: example_loads)
  have run: "fst (validate_queue example_lib \<lparr>field_list = [record_counter, speed_ceiling]\<rparr>
        [msg_slow, msg_text]) = Inl InvalidOperation"
    by (simp add: validate_queue_def example_loads record_id_vehicle TestCase_validate_def
          validate_record_counter_first validate_record_counter_next
          validate_speed_ceiling_slow validate_speed_ceiling_text)
  from g d one batch run show ?thesis
    by simp
qed

section \<open>The batch report\<close>

lemma validate_fields_labels:
  "fst (validate_fields lib fs data) = Inr vs \<Longrightarrow> map Field vs = map path fs"
proof (induction fs arbitrary: vs)
  case Nil
  then show ?case by simp
next
  case (Cons f fs)
  then show ?case
    by (auto simp: case_prod_unfold split: sum.splits)
qed

lemma validate_fields_keeps_paths:
  "map path (snd (validate_fields lib fs data)) = map path fs"
proof (induction fs)
  case Nil
  then show ?case by simp
next
  case (Cons f fs)
  then show ?case
    using validate_keeps_path [of lib f data]
    by (auto simp: case_prod_unfold split: sum.splits)
qed

lemma drain_report:
  assumes "fst (drain lib tc msg_queue) = Inr results"
    and "map path (field_list tc) = ps"
  shows "list_all2
      (\<lambda>msg entry. \<exists>current_msg. json_loads lib msg = Some current_msg
          \<and> record_id lib current_msg = Inr (RecordID entry)
          \<and> map Field (Validations entry) = ps)
      msg_queue results"
  using assms
proof (induction msg_queue arbitrary: tc results)
  case Nil
  then show ?case by simp
next
  case (Cons m ms)
  from Cons.prems(1) obtain current_msg where m: "json_loads lib m = Some current_msg"
    by (cases "json_loads lib m") simp_all
  from Cons.prems(1) m obtain rid where rid: "record_id lib current_msg = Inr rid"
    by (cases "record_id lib current_msg") simp_all
  obtain r fs' where v: "validate_fields lib (field_list tc) current_msg = (r, fs')"
    by (cases "validate_fields lib (field_list tc) current_msg")
  from Cons.prems(1) m rid v obtain validations where r: "r = Inr validations"
    by (cases r) (simp_all add: TestCase_validate_def)
  obtain rs rest where d: "drain lib (tc\<lparr>field_list := fs'\<rparr>) ms = (rs, rest)"
    by (cases "drain lib (tc\<lparr>field_list := fs'\<rparr>) ms")
  from Cons.prems(1) m rid v r d obtain others where rs: "rs = Inr others"
    and results: "results = \<lparr>RecordID = rid, Validations = validations\<rparr> # others"
    by (cases rs) (auto simp: TestCase_validate_def)
  have labels: "map Field validations = ps"
    using validate_fields_labels [of lib "field_list tc" current_msg validations] v r
      Cons.prems(2) by simp
  have paths: "map path (field_list (tc\<lparr>field_list := fs'\<rparr>)) = ps"
    using validate_fields_keeps_paths [of lib "field_list tc" current_msg] v Cons.prems(2)
    by simp
  have "list_all2
      (\<lambda>msg entry. \<exists>current_msg. json_loads lib msg = Some current_msg
          \<and> record_id lib current_msg = Inr (RecordID entry)
          \<and> map Field (Validations entry) = ps)
      ms others"
    using Cons.IH [OF _ paths, of others] d rs by simp
  with m rid labels results show ?case
    by simp
qed

lemma drain_empties:
  "fst (drain lib tc msg_queue) = Inr results \<Longrightarrow> snd (snd (drain lib tc msg_queue)) = []"
proof (induction msg_queue arbitrary: tc results)
  case Nil
  then show ?case by simp
next
  case (Cons m ms)
  then show ?case
    by (auto simp: case_prod_unfold split: option.splits sum.splits)
qed

text \<open>
  Claim C3, amended. Whenever \<^verbatim>\<open>validate_queue\<close> returns a report, that is, when no
  record of the queue makes deserialization, identifier extraction or a field rule
  raise, the report has one entry per record of the queue, in the order of the queue;
  each entry carries the identifier taken from \<^verbatim>\<open>metadata.serialId.recordId\<close> of its
  record and one validation per field rule, labelled with the paths of the rules in the
  order of the rule set; and the queue has been emptied.
\<close>

theorem batch_report_shape:
  assumes "fst (validate_queue lib tc msg_queue) = Inr report"
  shows "length (Results report) = length msg_queue
     \<and> list_all2
         (\<lambda>msg entry. \<exists>current_msg. json_loads lib msg = Some current_msg
            \<and> record_id lib current_msg = Inr (RecordID entry)
            \<and> map Field (Validations entry) = map path (field_list tc))
         msg_queue (Results report)
     \<and> snd (snd (validate_queue lib tc msg_queue)) = []"
proof -
  from assms have d: "fst (drain lib tc msg_queue) = Inr (Results report)"
    by (auto simp: validate_queue_def case_prod_unfold split: sum.splits)
  from drain_report [OF d refl]
  have all: "list_all2
         (\<lambda>msg entry. \<exists>current_msg. json_loads lib msg = Some current_msg
            \<and> record_id lib current_msg = Inr (RecordID entry)
            \<and> map Field (Validations entry) = map path (field_list tc))
         msg_queue (Results report)" .
  then have len: "length (Results report) = length msg_queue"
    by (simp add: list_all2_lengthD)
  from drain_empties [OF d] have "snd (snd (validate_queue lib tc msg_queue)) = []"
    using d by (auto simp: validate_queue_def case_prod_unfold split: sum.splits)
  with all len show ?thesis by simp
qed

lemma str_int_small: "str_int 1 = ''1''" "str_int 2 = ''2''"
  by (simp_all add: str_int_def str_nat.simps)

lemma example_paths:
  "path record_counter = ''metadata.serialId.recordId''" "path speed_ceiling = ''speed''"
  by (simp_all add: record_counter_def speed_ceiling_def)

lemma example_run:
  "validate_queue example_lib example_case [msg_slow, msg_fast]
     = (Inr example_report,
        \<lparr>field_list = [record_counter\<lparr>previous_value := Some (PInt 1)\<rparr>, speed_ceiling]\<rparr>,
        [])"
  by (simp add: validate_queue_def example_case_def example_report_def example_loads
        record_id_vehicle TestCase_validate_def validate_record_counter_first
        validate_record_counter_next validate_speed_ceiling_slow validate_speed_ceiling_fast
        str_int_small passed_def invalid_def example_paths)

theorem batch_report_shape_witness:
  "fst (validate_queue example_lib example_case [msg_slow, msg_fast]) = Inr example_report
   \<and> length (Results example_report) = length [msg_slow, msg_fast]
   \<and> list_all2
       (\<lambda>msg entry. \<exists>current_msg. json_loads example_lib msg = Some current_msg
          \<and> record_id example_lib current_msg = Inr (RecordID entry)
          \<and> map Field (Validations entry) = map path (field_list example_case))
       [msg_slow, msg_fast] (Results example_report)
   \<and> snd (snd (validate_queue example_lib example_case [msg_slow, msg_fast])) = []"
proof -
  have run: "fst (validate_queue example_lib example_case [msg_slow, msg_fast])
      = Inr example_report"
    by (simp add: example_run)
  from batch_report_shape [OF run] run show ?thesis
    by simp
qed

text \<open>
  The claim as stated fails: both records of this queue deserialize and carry an
  identifier, and the batch returns no report, because the speed of the second one is
  not a number and the speed rule has a limit.
\<close>

theorem batch_aborts_on_text_speed:
  "json_loads example_lib msg_slow = Some (vehicle 1 (PInt 50))
   \<and> json_loads example_lib msg_text = Some (vehicle 3 (PStr ''abc''))
   \<and> record_id example_lib (vehicle 1 (PInt 50)) = Inr ''1''
   \<and> record_id example_lib (vehicle 3 (PStr ''abc'')) = Inr ''3''
   \<and> fst (validate_queue example_lib \<lparr>field_list = [speed_ceiling]\<rparr> [msg_slow, msg_text])
       = Inl InvalidOperation"
  by (simp add: validate_queue_def example_loads record_id_vehicle TestCase_validate_def
        validate_speed_ceiling_slow validate_speed_ceiling_text str_int_def str_nat.simps)

end
